theory Spec2Isabelle
  imports Main
begin

section \<open>Tokens (lexer.py)\<close>

text \<open>
  The source text is a Python \<open>str\<close>. It is modelled as a \<open>string\<close> whose characters are
  read as the code points 0 to 255, one \<open>char\<close> per code point; \<open>isspace\<close>, \<open>isalpha\<close>,
  \<open>isdigit\<close> and \<open>isalnum\<close> below are Python's \<open>str\<close> predicates on that range.
\<close>

datatype TokenType =
    IDENTIFIER | NUMBER | STRING | FUNCTION | IF | THEN | ELSE | END | WHILE | DO
  | RETURN | LOCAL | ASSIGN | PLUS | MINUS | STAR | SLASH | LPAREN | RPAREN | COMMA
  | SEMICOLON | GREATER | GREATER_EQUAL | LESS | LESS_EQUAL | EQUAL_EQUAL | DOTDOT | EOF

text \<open>
  The \<open>value\<close> field of a token: \<open>None\<close>, a \<open>str\<close>, an \<open>int\<close>, or a \<open>float\<close>. A float is kept
  as the decimal text that \<open>float()\<close> was given (digits, a dot, digits), which determines it.
\<close>

datatype literal = PyNone | PyStr string | PyInt int | PyFloat string

datatype Token = Token (ttype: TokenType) (tvalue: literal) (tline: int) (tcolumn: int)

datatype diagnostic =
    UnexpectedCharacter char int int   \<comment> \<open>character, line, column\<close>
  | UnterminatedString int             \<comment> \<open>line\<close>

datatype lex_error =
    ValueError string   \<comment> \<open>raised by \<open>int(value)\<close> or \<open>float(value)\<close>\<close>
  | LexIndexError       \<comment> \<open>\<open>self.source[self.current]\<close> out of range\<close>

record Lexer =
  source :: string
  tokens :: "Token list"
  start :: nat
  current :: nat
  line :: int
  column :: int
  printed :: "diagnostic list"   \<comment> \<open>what \<open>print\<close> has written, oldest first\<close>

definition isspace :: "char \<Rightarrow> bool" where
  "isspace c = (of_char c \<in> {9, 10, 11, 12, 13, 28, 29, 30, 31, 32, 133, 160 :: nat})"

definition isdecimal :: "char \<Rightarrow> bool" where
  "isdecimal c = (48 \<le> (of_char c :: nat) \<and> (of_char c :: nat) \<le> 57)"

definition isdigit :: "char \<Rightarrow> bool" where
  "isdigit c = (isdecimal c \<or> of_char c \<in> {178, 179, 185 :: nat})"

definition isalpha :: "char \<Rightarrow> bool" where
  "isalpha c = (let n = (of_char c :: nat) in
     (65 \<le> n \<and> n \<le> 90) \<or> (97 \<le> n \<and> n \<le> 122) \<or> n = 170 \<or> n = 181 \<or> n = 186
     \<or> (192 \<le> n \<and> n \<le> 214) \<or> (216 \<le> n \<and> n \<le> 246) \<or> (248 \<le> n \<and> n \<le> 255))"

definition isalnum :: "char \<Rightarrow> bool" where
  "isalnum c = (isalpha c \<or> isdigit c \<or> of_char c \<in> {188, 189, 190 :: nat})"

definition keyword_table :: "string \<Rightarrow> TokenType option" where
  "keyword_table = map_of
     [(''function'', FUNCTION), (''if'', IF), (''then'', THEN), (''else'', ELSE),
      (''end'', END), (''while'', WHILE), (''do'', DO), (''return'', RETURN),
      (''local'', LOCAL)]"

definition is_at_end :: "Lexer \<Rightarrow> bool" where
  "is_at_end L = (current L \<ge> length (source L))"

definition advance :: "Lexer \<Rightarrow> lex_error + (char \<times> Lexer)" where
  "advance L =
     (if current L < length (source L)
      then Inr (source L ! current L, L\<lparr>current := current L + 1, column := column L + 1\<rparr>)
      else Inl LexIndexError)"

definition peek :: "Lexer \<Rightarrow> char" where
  "peek L = (if is_at_end L then CHR 0x00 else source L ! current L)"

definition peek_next :: "Lexer \<Rightarrow> char" where
  "peek_next L =
     (if current L + 1 \<ge> length (source L) then CHR 0x00 else source L ! (current L + 1))"

text \<open>\<open>s[i:j]\<close> for indices \<open>0 \<le> i\<close>, \<open>0 \<le> j\<close>.\<close>

definition slice :: "string \<Rightarrow> nat \<Rightarrow> nat \<Rightarrow> string" where
  "slice s i j = take (j - i) (drop i s)"

definition add_token :: "TokenType \<Rightarrow> literal option \<Rightarrow> Lexer \<Rightarrow> Lexer" where
  "add_token ty v L =
     (let text = slice (source L) (start L) (current L)
      in L\<lparr>tokens := tokens L @
             [Token ty (case v of Some x \<Rightarrow> x | None \<Rightarrow> PyStr text)
                (line L) (column L - (int (current L) - int (start L)))]\<rparr>)"

function identifier_loop :: "Lexer \<Rightarrow> lex_error + Lexer" where
  "identifier_loop L =
     (if (isalnum (peek L) \<or> peek L = CHR ''_'') \<and> \<not> is_at_end L
      then (case advance L of Inl e \<Rightarrow> Inl e | Inr (c, L') \<Rightarrow> identifier_loop L')
      else Inr L)"
  by pat_completeness auto
termination
  by (relation "measure (\<lambda>L. length (source L) - current L)")
     (auto simp: advance_def is_at_end_def split: if_splits)

declare identifier_loop.simps [simp del]

definition identifier_tok :: "Lexer \<Rightarrow> lex_error + Lexer" where
  "identifier_tok L =
     (case identifier_loop L of Inl e \<Rightarrow> Inl e
      | Inr L1 \<Rightarrow>
          (let text = slice (source L1) (start L1) (current L1);
               ty = (case keyword_table text of Some k \<Rightarrow> k | None \<Rightarrow> IDENTIFIER)
           in Inr (add_token ty None L1)))"

function digit_loop :: "Lexer \<Rightarrow> lex_error + Lexer" where
  "digit_loop L =
     (if isdigit (peek L) \<and> \<not> is_at_end L
      then (case advance L of Inl e \<Rightarrow> Inl e | Inr (c, L') \<Rightarrow> digit_loop L')
      else Inr L)"
  by pat_completeness auto
termination
  by (relation "measure (\<lambda>L. length (source L) - current L)")
     (auto simp: advance_def is_at_end_def split: if_splits)

declare digit_loop.simps [simp del]

text \<open>
  \<open>int(value)\<close> and \<open>float(value)\<close> on a text made of \<open>isdigit\<close> characters (and one dot for
  a float): Python converts decimal digits and raises \<open>ValueError\<close> on any other digit
  character, such as a superscript digit. (The interpreter's configurable limit on the
  length of a decimal integer text is not part of the model.)
\<close>

definition py_int :: "string \<Rightarrow> lex_error + literal" where
  "py_int s =
     (if s \<noteq> [] \<and> list_all isdecimal s
      then Inr (PyInt (foldl (\<lambda>a c. 10 * a + (int (of_char c) - 48)) 0 s))
      else Inl (ValueError s))"

definition py_float :: "string \<Rightarrow> lex_error + literal" where
  "py_float s =
     (if list_all (\<lambda>c. isdecimal c \<or> c = CHR ''.'') s then Inr (PyFloat s)
      else Inl (ValueError s))"

definition number_tok :: "Lexer \<Rightarrow> lex_error + Lexer" where
  "number_tok L =
     (case digit_loop L of Inl e \<Rightarrow> Inl e
      | Inr L1 \<Rightarrow>
          (case (if peek L1 = CHR ''.'' \<and> isdigit (peek_next L1)
                 then (case advance L1 of Inl e \<Rightarrow> Inl e | Inr (c, L2) \<Rightarrow> digit_loop L2)
                 else Inr L1) of
             Inl e \<Rightarrow> Inl e
           | Inr L3 \<Rightarrow>
               (let v = slice (source L3) (start L3) (current L3)
                in case (if CHR ''.'' \<in> set v then py_float v else py_int v) of
                     Inl e \<Rightarrow> Inl e
                   | Inr x \<Rightarrow> Inr (add_token NUMBER (Some x) L3))))"

function string_loop :: "char \<Rightarrow> Lexer \<Rightarrow> lex_error + Lexer" where
  "string_loop quote_char L =
     (if peek L \<noteq> quote_char \<and> \<not> is_at_end L
      then (let L0 = (if peek L = CHR 0x0A then L\<lparr>line := line L + 1, column := 1\<rparr> else L)
            in case advance L0 of Inl e \<Rightarrow> Inl e | Inr (c, L') \<Rightarrow> string_loop quote_char L')
      else Inr L)"
  by pat_completeness auto
termination
  by (relation "measure (\<lambda>(q, L). length (source L) - current L)")
     (auto simp: advance_def is_at_end_def Let_def split: if_splits)

declare string_loop.simps [simp del]

definition string_tok :: "char \<Rightarrow> Lexer \<Rightarrow> lex_error + Lexer" where
  "string_tok quote_char L =
     (case string_loop quote_char L of Inl e \<Rightarrow> Inl e
      | Inr L1 \<Rightarrow>
          if is_at_end L1
          then Inr (L1\<lparr>printed := printed L1 @ [UnterminatedString (line L1)]\<rparr>)
          else (case advance L1 of Inl e \<Rightarrow> Inl e
                | Inr (c, L2) \<Rightarrow>
                    (let v = slice (source L2) (start L2 + 1) (current L2 - 1)
                     in Inr (add_token STRING (Some (PyStr v)) L2))))"

function comment_loop :: "Lexer \<Rightarrow> lex_error + Lexer" where
  "comment_loop L =
     (if peek L \<noteq> CHR 0x0A \<and> \<not> is_at_end L
      then (case advance L of Inl e \<Rightarrow> Inl e | Inr (c, L') \<Rightarrow> comment_loop L')
      else Inr L)"
  by pat_completeness auto
termination
  by (relation "measure (\<lambda>L. length (source L) - current L)")
     (auto simp: advance_def is_at_end_def split: if_splits)

declare comment_loop.simps [simp del]

definition unexpected :: "char \<Rightarrow> Lexer \<Rightarrow> Lexer" where
  "unexpected c L = L\<lparr>printed := printed L @ [UnexpectedCharacter c (line L) (column L)]\<rparr>"

text \<open>The two-character operators: \<open>if self.peek() == second: self.advance(); add two else add one\<close>.\<close>

definition one_or_two :: "char \<Rightarrow> TokenType \<Rightarrow> TokenType \<Rightarrow> Lexer \<Rightarrow> lex_error + Lexer" where
  "one_or_two second two one L =
     (if peek L = second
      then (case advance L of Inl e \<Rightarrow> Inl e | Inr (c, L') \<Rightarrow> Inr (add_token two None L'))
      else Inr (add_token one None L))"

definition scan_token :: "Lexer \<Rightarrow> lex_error + Lexer" where
  "scan_token L0 =
     (case advance L0 of Inl e \<Rightarrow> Inl e
      | Inr (char, L) \<Rightarrow>
          if isspace char then
            (if char = CHR 0x0A then Inr (L\<lparr>line := line L + 1, column := 1\<rparr>) else Inr L)
          else if isalpha char \<or> char = CHR ''_'' then identifier_tok L
          else if isdigit char then number_tok L
          else if char = CHR 0x22 \<or> char = CHR 0x27 then string_tok char L
          else if char = CHR ''='' then one_or_two CHR ''='' EQUAL_EQUAL ASSIGN L
          else if char = CHR ''>'' then one_or_two CHR ''='' GREATER_EQUAL GREATER L
          else if char = CHR ''<'' then one_or_two CHR ''='' LESS_EQUAL LESS L
          else if char = CHR ''+'' then Inr (add_token PLUS None L)
          else if char = CHR ''-'' then
            (if peek L = CHR ''-'' then comment_loop L else Inr (add_token MINUS None L))
          else if char = CHR ''*'' then Inr (add_token STAR None L)
          else if char = CHR ''/'' then Inr (add_token SLASH None L)
          else if char = CHR ''('' then Inr (add_token LPAREN None L)
          else if char = CHR '')'' then Inr (add_token RPAREN None L)
          else if char = CHR '','' then Inr (add_token COMMA None L)
          else if char = CHR '';'' then Inr (add_token SEMICOLON None L)
          else if char = CHR ''.'' then
            (if peek L = CHR ''.''
             then (case advance L of Inl e \<Rightarrow> Inl e
                   | Inr (c, L') \<Rightarrow> Inr (add_token DOTDOT None L'))
             else Inr (unexpected char L))
          else Inr (unexpected char L))"


text \<open>Every routine of the lexer leaves the source alone and never moves \<open>current\<close> back.\<close>

lemma advance_Inr:
  "advance L = Inr (c, L') \<Longrightarrow> source L' = source L \<and> current L' = current L + 1"
  by (auto simp: advance_def split: if_splits)

lemma identifier_loop_mono:
  "identifier_loop L = Inr L' \<Longrightarrow> source L' = source L \<and> current L \<le> current L'"
proof (induction L rule: identifier_loop.induct)
  case (1 L)
  show ?case
  proof (cases "(isalnum (peek L) \<or> peek L = CHR ''_'') \<and> \<not> is_at_end L")
    case True
    then obtain c L1 where a: "advance L = Inr (c, L1)" and r: "identifier_loop L1 = Inr L'"
      using "1.prems" by (subst (asm) identifier_loop.simps) (auto split: sum.splits)
    from "1.IH"[OF True a refl r] advance_Inr[OF a] show ?thesis by simp
  next
    case False
    then show ?thesis using "1.prems" by (subst (asm) identifier_loop.simps) auto
  qed
qed

lemma digit_loop_mono:
  "digit_loop L = Inr L' \<Longrightarrow> source L' = source L \<and> current L \<le> current L'"
proof (induction L rule: digit_loop.induct)
  case (1 L)
  show ?case
  proof (cases "isdigit (peek L) \<and> \<not> is_at_end L")
    case True
    then obtain c L1 where a: "advance L = Inr (c, L1)" and r: "digit_loop L1 = Inr L'"
      using "1.prems" by (subst (asm) digit_loop.simps) (auto split: sum.splits)
    from "1.IH"[OF True a refl r] advance_Inr[OF a] show ?thesis by simp
  next
    case False
    then show ?thesis using "1.prems" by (subst (asm) digit_loop.simps) auto
  qed
qed

lemma comment_loop_mono:
  "comment_loop L = Inr L' \<Longrightarrow> source L' = source L \<and> current L \<le> current L'"
proof (induction L rule: comment_loop.induct)
  case (1 L)
  show ?case
  proof (cases "peek L \<noteq> CHR 0x0A \<and> \<not> is_at_end L")
    case True
    then obtain c L1 where a: "advance L = Inr (c, L1)" and r: "comment_loop L1 = Inr L'"
      using "1.prems" by (subst (asm) comment_loop.simps) (auto split: sum.splits)
    from "1.IH"[OF True a refl r] advance_Inr[OF a] show ?thesis by simp
  next
    case False
    then show ?thesis using "1.prems" by (subst (asm) comment_loop.simps) auto
  qed
qed

lemma string_loop_mono:
  "string_loop q L = Inr L' \<Longrightarrow> source L' = source L \<and> current L \<le> current L'"
proof (induction q L rule: string_loop.induct)
  case (1 q L)
  let ?L0 = "if peek L = CHR 0x0A then L\<lparr>line := line L + 1, column := 1\<rparr> else L"
  show ?case
  proof (cases "peek L \<noteq> q \<and> \<not> is_at_end L")
    case True
    then obtain c L1 where a: "advance ?L0 = Inr (c, L1)" and r: "string_loop q L1 = Inr L'"
      using "1.prems" by (subst (asm) string_loop.simps) (auto simp: Let_def split: sum.splits)
    from "1.IH"[OF True refl a refl r] advance_Inr[OF a] show ?thesis
      by (auto split: if_splits)
  next
    case False
    then show ?thesis using "1.prems" by (subst (asm) string_loop.simps) auto
  qed
qed

lemma add_token_fields [simp]:
  "source (add_token ty v L) = source L" "current (add_token ty v L) = current L"
  by (simp_all add: add_token_def Let_def)

lemma one_or_two_mono:
  "one_or_two c a b L = Inr L' \<Longrightarrow> source L' = source L \<and> current L \<le> current L'"
  by (auto simp: one_or_two_def split: if_splits sum.splits dest!: advance_Inr)

lemma identifier_tok_mono:
  "identifier_tok L = Inr L' \<Longrightarrow> source L' = source L \<and> current L \<le> current L'"
  by (auto simp: identifier_tok_def Let_def split: sum.splits dest!: identifier_loop_mono)

lemma number_tok_mono:
  "number_tok L = Inr L' \<Longrightarrow> source L' = source L \<and> current L \<le> current L'"
  by (auto simp: number_tok_def Let_def split: sum.splits if_splits
      dest!: digit_loop_mono advance_Inr)

lemma string_tok_mono:
  "string_tok q L = Inr L' \<Longrightarrow> source L' = source L \<and> current L \<le> current L'"
  by (auto simp: string_tok_def Let_def split: sum.splits if_splits
      dest!: string_loop_mono advance_Inr)

lemma unexpected_fields [simp]:
  "source (unexpected c L) = source L" "current (unexpected c L) = current L"
  by (simp_all add: unexpected_def)

lemma scan_token_progress:
  assumes "scan_token L = Inr L'"
  shows "source L' = source L \<and> current L < current L'"
proof -
  from assms obtain ch L1 where a: "advance L = Inr (ch, L1)"
    by (auto simp: scan_token_def split: sum.splits)
  have s1: "source L1 = source L" "current L1 = current L + 1"
    using advance_Inr[OF a] by simp_all
  have "source L' = source L1 \<and> current L1 \<le> current L'"
    using assms unfolding scan_token_def a sum.case prod.case
    by (auto split: if_splits sum.splits
        dest!: identifier_tok_mono number_tok_mono string_tok_mono one_or_two_mono
          comment_loop_mono advance_Inr)
  with s1 show ?thesis by simp
qed

function tokenize_loop :: "Lexer \<Rightarrow> lex_error + Lexer" where
  "tokenize_loop L =
     (if \<not> is_at_end L
      then (case scan_token (L\<lparr>start := current L\<rparr>) of Inl e \<Rightarrow> Inl e
            | Inr L' \<Rightarrow> tokenize_loop L')
      else Inr L)"
  by pat_completeness auto
termination
  apply (relation "measure (\<lambda>L. length (source L) - current L)")
   apply simp
  subgoal for L L' using scan_token_progress[of "L\<lparr>start := current L\<rparr>" L'] by (auto simp: is_at_end_def)
  done

declare tokenize_loop.simps [simp del]

definition tokenize :: "Lexer \<Rightarrow> lex_error + Lexer" where
  "tokenize L =
     (case tokenize_loop L of Inl e \<Rightarrow> Inl e
      | Inr L' \<Rightarrow> Inr (L'\<lparr>tokens := tokens L' @ [Token EOF PyNone (line L') (column L')]\<rparr>))"

text \<open>\<open>Lexer(source)\<close>: the constructor sets the cursors and runs \<open>tokenize\<close>.\<close>

definition new_Lexer :: "string \<Rightarrow> lex_error + Lexer" where
  "new_Lexer src =
     tokenize \<lparr>source = src, tokens = [], start = 0, current = 0, line = 1, column = 1,
               printed = []\<rparr>"


text \<open>\<open>Lexer(source).tokens\<close>, as \<open>main.py\<close> reads it.\<close>

definition lexer_tokens :: "string \<Rightarrow> lex_error + Token list" where
  "lexer_tokens src = (case new_Lexer src of Inl e \<Rightarrow> Inl e | Inr L \<Rightarrow> Inr (tokens L))"

text \<open>
  The line and the column of the character at index \<open>i\<close> of a text, both counted from 1,
  lines ending at a newline: the position a token that starts at \<open>i\<close> should carry.
\<close>

definition exact_position :: "string \<Rightarrow> nat \<Rightarrow> int \<times> int" where
  "exact_position src i =
     (1 + int (count_list (take i src) CHR 0x0A),
      1 + int (length (takeWhile (\<lambda>c. c \<noteq> CHR 0x0A) (rev (take i src)))))"

section \<open>Facts about the lexer\<close>

text \<open>
  The loops only move the cursor (and, in a string, the line and the column): they add
  no token and print nothing.
\<close>

lemma advance_output:
  "advance L = Inr (c, L') \<Longrightarrow> tokens L' = tokens L \<and> printed L' = printed L \<and> start L' = start L"
  by (auto simp: advance_def split: if_splits)

lemma identifier_loop_output:
  "identifier_loop L = Inr L' \<Longrightarrow>
     tokens L' = tokens L \<and> printed L' = printed L \<and> start L' = start L"
proof (induction L rule: identifier_loop.induct)
  case (1 L)
  show ?case
  proof (cases "(isalnum (peek L) \<or> peek L = CHR ''_'') \<and> \<not> is_at_end L")
    case True
    then obtain c L1 where a: "advance L = Inr (c, L1)" and r: "identifier_loop L1 = Inr L'"
      using "1.prems" by (subst (asm) identifier_loop.simps) (auto split: sum.splits)
    from "1.IH"[OF True a refl r] advance_output[OF a] show ?thesis by simp
  next
    case False
    then show ?thesis using "1.prems" by (subst (asm) identifier_loop.simps) auto
  qed
qed

lemma digit_loop_output:
  "digit_loop L = Inr L' \<Longrightarrow>
     tokens L' = tokens L \<and> printed L' = printed L \<and> start L' = start L"
proof (induction L rule: digit_loop.induct)
  case (1 L)
  show ?case
  proof (cases "isdigit (peek L) \<and> \<not> is_at_end L")
    case True
    then obtain c L1 where a: "advance L = Inr (c, L1)" and r: "digit_loop L1 = Inr L'"
      using "1.prems" by (subst (asm) digit_loop.simps) (auto split: sum.splits)
    from "1.IH"[OF True a refl r] advance_output[OF a] show ?thesis by simp
  next
    case False
    then show ?thesis using "1.prems" by (subst (asm) digit_loop.simps) auto
  qed
qed

lemma comment_loop_output:
  "comment_loop L = Inr L' \<Longrightarrow>
     tokens L' = tokens L \<and> printed L' = printed L \<and> start L' = start L"
proof (induction L rule: comment_loop.induct)
  case (1 L)
  show ?case
  proof (cases "peek L \<noteq> CHR 0x0A \<and> \<not> is_at_end L")
    case True
    then obtain c L1 where a: "advance L = Inr (c, L1)" and r: "comment_loop L1 = Inr L'"
      using "1.prems" by (subst (asm) comment_loop.simps) (auto split: sum.splits)
    from "1.IH"[OF True a refl r] advance_output[OF a] show ?thesis by simp
  next
    case False
    then show ?thesis using "1.prems" by (subst (asm) comment_loop.simps) auto
  qed
qed

lemma string_loop_output:
  "string_loop q L = Inr L' \<Longrightarrow>
     tokens L' = tokens L \<and> printed L' = printed L \<and> start L' = start L"
proof (induction q L rule: string_loop.induct)
  case (1 q L)
  let ?L0 = "if peek L = CHR 0x0A then L\<lparr>line := line L + 1, column := 1\<rparr> else L"
  show ?case
  proof (cases "peek L \<noteq> q \<and> \<not> is_at_end L")
    case True
    then obtain c L1 where a: "advance ?L0 = Inr (c, L1)" and r: "string_loop q L1 = Inr L'"
      using "1.prems" by (subst (asm) string_loop.simps) (auto simp: Let_def split: sum.splits)
    from "1.IH"[OF True refl a refl r] advance_output[OF a] show ?thesis
      by (auto split: if_splits)
  next
    case False
    then show ?thesis using "1.prems" by (subst (asm) string_loop.simps) auto
  qed
qed

text \<open>
  One call of \<open>scan_token\<close> adds at most one token, which is never the end-of-input token.
\<close>

definition added_tokens :: "Lexer \<Rightarrow> Lexer \<Rightarrow> bool" where
  "added_tokens L L' =
     (\<exists>ts. tokens L' = tokens L @ ts \<and> length ts \<le> 1 \<and> list_all (\<lambda>t. ttype t \<noteq> EOF) ts)"

lemma keyword_table_not_EOF: "keyword_table text = Some k \<Longrightarrow> k \<noteq> EOF"
  by (auto simp: keyword_table_def split: if_splits)

lemma one_or_two_added:
  "one_or_two c a b L = Inr L' \<Longrightarrow> a \<noteq> EOF \<Longrightarrow> b \<noteq> EOF \<Longrightarrow> added_tokens L L'"
  by (auto simp: one_or_two_def added_tokens_def add_token_def Let_def
      split: if_splits sum.splits dest!: advance_output)

lemma identifier_tok_added: "identifier_tok L = Inr L' \<Longrightarrow> added_tokens L L'"
  by (auto simp: identifier_tok_def added_tokens_def add_token_def Let_def
      split: sum.splits option.splits dest!: identifier_loop_output keyword_table_not_EOF)

lemma number_tok_added: "number_tok L = Inr L' \<Longrightarrow> added_tokens L L'"
  by (auto simp: number_tok_def added_tokens_def add_token_def Let_def
      split: sum.splits if_splits dest!: digit_loop_output advance_output)

lemma string_tok_added: "string_tok q L = Inr L' \<Longrightarrow> added_tokens L L'"
  by (auto simp: string_tok_def added_tokens_def add_token_def Let_def
      split: sum.splits if_splits dest!: string_loop_output advance_output)

lemma scan_token_added:
  assumes "scan_token L = Inr L'"
  shows "added_tokens L L'"
proof -
  from assms obtain ch L1 where a: "advance L = Inr (ch, L1)"
    by (auto simp: scan_token_def split: sum.splits)
  have t: "tokens L1 = tokens L" using advance_output[OF a] by simp
  have "added_tokens L1 L'"
    using assms unfolding scan_token_def a sum.case prod.case
    by (auto simp: unexpected_def added_tokens_def add_token_def Let_def
        split: if_splits sum.splits
        dest!: comment_loop_output advance_output
          identifier_tok_added number_tok_added string_tok_added one_or_two_added)
  with t show ?thesis by (simp add: added_tokens_def)
qed

lemma tokenize_loop_tokens:
  "tokenize_loop L = Inr L' \<Longrightarrow>
     \<exists>ts. tokens L' = tokens L @ ts \<and> list_all (\<lambda>t. ttype t \<noteq> EOF) ts"
proof (induction L rule: tokenize_loop.induct)
  case (1 L)
  show ?case
  proof (cases "is_at_end L")
    case True
    then show ?thesis using "1.prems" by (subst (asm) tokenize_loop.simps) auto
  next
    case False
    then obtain L1 where s: "scan_token (L\<lparr>start := current L\<rparr>) = Inr L1"
      and r: "tokenize_loop L1 = Inr L'"
      using "1.prems" by (subst (asm) tokenize_loop.simps) (auto split: sum.splits)
    from "1.IH"[OF False s r] scan_token_added[OF s] show ?thesis
      by (auto simp: added_tokens_def)
  qed
qed

text \<open>
  Whenever the lexer returns, its tokens are tokens other than end-of-input followed by
  one end-of-input token, which carries the final line and column.
\<close>

lemma lexer_ends_with_one_EOF:
  assumes "new_Lexer src = Inr L"
  shows "\<exists>ts. tokens L = ts @ [Token EOF PyNone (line L) (column L)]
            \<and> list_all (\<lambda>t. ttype t \<noteq> EOF) ts"
proof -
  from assms obtain L1 where t: "tokenize_loop \<lparr>source = src, tokens = [], start = 0,
      current = 0, line = 1, column = 1, printed = []\<rparr> = Inr L1"
    and L: "L = L1\<lparr>tokens := tokens L1 @ [Token EOF PyNone (line L1) (column L1)]\<rparr>"
    by (auto simp: new_Lexer_def tokenize_def split: sum.splits)
  from tokenize_loop_tokens[OF t] L show ?thesis by auto
qed

section \<open>The syntax tree (syntaxtree.py)\<close>

text \<open>
  One constructor for each node class, with the fields of its \<open>__init__\<close>. The fields that
  hold a name hold its text; \<open>NumberNode\<close> and \<open>StringNode\<close> hold the token's value as it is.
  The operator of a \<open>BinaryOpNode\<close> is the operator's token.
\<close>

datatype Node =
    NumberNode literal
  | StringNode literal
  | VariableNode string
  | BinaryOpNode Node Token Node
  | AssignmentNode string Node
  | IfNode Node Node "Node option"
  | WhileNode Node Node
  | FunctionNode string "string list" Node
  | FunctionCallNode string "Node list"
  | ReturnNode "Node option"
  | BlockNode "Node list"

section \<open>The parser (parser.py)\<close>

text \<open>
  \<open>ParseError\<close> carries the message and the token the message locates (\<open>self.peek()\<close>, whose
  line and column the text of the exception shows). \<open>ParseIndexError\<close> is the \<open>IndexError\<close>
  of \<open>self.tokens[...]\<close> out of range.

  The parser's routines call one another without a structural bound, so each takes a
  number of calls it may still nest (its fuel): \<open>None\<close> is "fuel exhausted", \<open>Some (Inl e)\<close>
  an exception and \<open>Some (Inr x)\<close> a returned value. The token list never changes; the
  cursor \<open>self.current\<close> is passed and returned.
\<close>

datatype parse_error = ParseError string Token | ParseIndexError

type_synonym 'a presult = "(parse_error + 'a) option"

definition p_ok :: "'a \<Rightarrow> 'a presult" where
  "p_ok x = Some (Inr x)"

definition p_raise :: "parse_error \<Rightarrow> 'a presult" where
  "p_raise e = Some (Inl e)"

definition pbind :: "'a presult \<Rightarrow> ('a \<Rightarrow> 'b presult) \<Rightarrow> 'b presult" where
  "pbind m f = (case m of None \<Rightarrow> None | Some (Inl e) \<Rightarrow> Some (Inl e) | Some (Inr x) \<Rightarrow> f x)"

text \<open>
  The name in an identifier token. The lexer gives every \<open>IDENTIFIER\<close> token its text
  (\<open>add_token\<close> without a value), and the parser only ever reads the lexer's tokens.
\<close>

fun text_of :: "literal \<Rightarrow> string" where
  "text_of (PyStr s) = s"
| "text_of _ = []"

definition peek_tok :: "Token list \<Rightarrow> nat \<Rightarrow> Token presult" where
  "peek_tok toks cur = (if cur < length toks then p_ok (toks ! cur) else p_raise ParseIndexError)"

text \<open>\<open>self.tokens[self.current - 1]\<close>: at cursor 0 the index is -1, the last token.\<close>

definition previous_tok :: "Token list \<Rightarrow> nat \<Rightarrow> Token presult" where
  "previous_tok toks cur =
     (if cur = 0 then (if toks = [] then p_raise ParseIndexError else p_ok (last toks))
      else if cur - 1 < length toks then p_ok (toks ! (cur - 1))
      else p_raise ParseIndexError)"

definition tokens_at_end :: "Token list \<Rightarrow> nat \<Rightarrow> bool presult" where
  "tokens_at_end toks cur = pbind (peek_tok toks cur) (\<lambda>t. p_ok (ttype t = EOF))"

definition advance_tok :: "Token list \<Rightarrow> nat \<Rightarrow> (Token \<times> nat) presult" where
  "advance_tok toks cur =
     pbind (tokens_at_end toks cur) (\<lambda>e.
       let cur' = (if \<not> e then cur + 1 else cur)
       in pbind (previous_tok toks cur') (\<lambda>t. p_ok (t, cur')))"

definition check_tok :: "TokenType \<Rightarrow> Token list \<Rightarrow> nat \<Rightarrow> bool presult" where
  "check_tok ty toks cur =
     pbind (tokens_at_end toks cur) (\<lambda>e.
       if e then p_ok False else pbind (peek_tok toks cur) (\<lambda>t. p_ok (ttype t = ty)))"

fun match_tok :: "TokenType list \<Rightarrow> Token list \<Rightarrow> nat \<Rightarrow> (bool \<times> nat) presult" where
  "match_tok [] toks cur = p_ok (False, cur)"
| "match_tok (ty # tys) toks cur =
     pbind (check_tok ty toks cur) (\<lambda>b.
       if b then pbind (advance_tok toks cur) (\<lambda>(t, c). p_ok (True, c))
       else match_tok tys toks cur)"

definition consume :: "TokenType \<Rightarrow> string \<Rightarrow> Token list \<Rightarrow> nat \<Rightarrow> (Token \<times> nat) presult" where
  "consume ty message toks cur =
     pbind (check_tok ty toks cur) (\<lambda>b.
       if b then advance_tok toks cur
       else pbind (peek_tok toks cur) (\<lambda>t. p_raise (ParseError message t)))"

definition peek_next_tok :: "Token list \<Rightarrow> nat \<Rightarrow> Token" where
  "peek_next_tok toks cur =
     (if cur + 1 \<ge> length toks then Token EOF PyNone 0 0 else toks ! (cur + 1))"

text \<open>\<open>any(self.check(t) for t in terminator_tokens)\<close>, which stops at the first match.\<close>

fun any_check :: "TokenType list \<Rightarrow> Token list \<Rightarrow> nat \<Rightarrow> bool presult" where
  "any_check [] toks cur = p_ok False"
| "any_check (ty # tys) toks cur =
     pbind (check_tok ty toks cur) (\<lambda>b. if b then p_ok True else any_check tys toks cur)"

text \<open>
  The expression routines. Each \<open>while self.match(...)\<close> loop is the routine named
  \<open>..._loop\<close>, which carries the expression built so far.
\<close>

function parse_expression :: "nat \<Rightarrow> Token list \<Rightarrow> nat \<Rightarrow> (Node \<times> nat) presult"
  and parse_concat :: "nat \<Rightarrow> Token list \<Rightarrow> nat \<Rightarrow> (Node \<times> nat) presult"
  and concat_loop :: "nat \<Rightarrow> Token list \<Rightarrow> nat \<Rightarrow> Node \<Rightarrow> (Node \<times> nat) presult"
  and parse_comparison :: "nat \<Rightarrow> Token list \<Rightarrow> nat \<Rightarrow> (Node \<times> nat) presult"
  and comparison_loop :: "nat \<Rightarrow> Token list \<Rightarrow> nat \<Rightarrow> Node \<Rightarrow> (Node \<times> nat) presult"
  and parse_additive :: "nat \<Rightarrow> Token list \<Rightarrow> nat \<Rightarrow> (Node \<times> nat) presult"
  and additive_loop :: "nat \<Rightarrow> Token list \<Rightarrow> nat \<Rightarrow> Node \<Rightarrow> (Node \<times> nat) presult"
  and parse_multiplicative :: "nat \<Rightarrow> Token list \<Rightarrow> nat \<Rightarrow> (Node \<times> nat) presult"
  and multiplicative_loop :: "nat \<Rightarrow> Token list \<Rightarrow> nat \<Rightarrow> Node \<Rightarrow> (Node \<times> nat) presult"
  and parse_primary :: "nat \<Rightarrow> Token list \<Rightarrow> nat \<Rightarrow> (Node \<times> nat) presult"
  and parse_arguments :: "nat \<Rightarrow> Token list \<Rightarrow> nat \<Rightarrow> (Node list \<times> nat) presult"
  and arguments_loop :: "nat \<Rightarrow> Token list \<Rightarrow> nat \<Rightarrow> Node list \<Rightarrow> (Node list \<times> nat) presult"
where
  "parse_expression 0 toks cur = None"
| "parse_expression (Suc n) toks cur = parse_concat n toks cur"
| "parse_concat 0 toks cur = None"
| "parse_concat (Suc n) toks cur =
     pbind (parse_comparison n toks cur) (\<lambda>(expr, c). concat_loop n toks c expr)"
| "concat_loop 0 toks cur expr = None"
| "concat_loop (Suc n) toks cur expr =
     pbind (match_tok [DOTDOT] toks cur) (\<lambda>(m, c).
       if m then
         pbind (previous_tok toks c) (\<lambda>operator.
         pbind (parse_comparison n toks c) (\<lambda>(right, c).
           concat_loop n toks c (BinaryOpNode expr operator right)))
       else p_ok (expr, c))"
| "parse_comparison 0 toks cur = None"
| "parse_comparison (Suc n) toks cur =
     pbind (parse_additive n toks cur) (\<lambda>(expr, c). comparison_loop n toks c expr)"
| "comparison_loop 0 toks cur expr = None"
| "comparison_loop (Suc n) toks cur expr =
     pbind (match_tok [EQUAL_EQUAL, GREATER, GREATER_EQUAL, LESS, LESS_EQUAL] toks cur) (\<lambda>(m, c).
       if m then
         pbind (previous_tok toks c) (\<lambda>operator.
         pbind (parse_additive n toks c) (\<lambda>(right, c).
           comparison_loop n toks c (BinaryOpNode expr operator right)))
       else p_ok (expr, c))"
| "parse_additive 0 toks cur = None"
| "parse_additive (Suc n) toks cur =
     pbind (parse_multiplicative n toks cur) (\<lambda>(expr, c). additive_loop n toks c expr)"
| "additive_loop 0 toks cur expr = None"
| "additive_loop (Suc n) toks cur expr =
     pbind (match_tok [PLUS, MINUS] toks cur) (\<lambda>(m, c).
       if m then
         pbind (previous_tok toks c) (\<lambda>operator.
         pbind (parse_multiplicative n toks c) (\<lambda>(right, c).
           additive_loop n toks c (BinaryOpNode expr operator right)))
       else p_ok (expr, c))"
| "parse_multiplicative 0 toks cur = None"
| "parse_multiplicative (Suc n) toks cur =
     pbind (parse_primary n toks cur) (\<lambda>(expr, c). multiplicative_loop n toks c expr)"
| "multiplicative_loop 0 toks cur expr = None"
| "multiplicative_loop (Suc n) toks cur expr =
     pbind (match_tok [STAR, SLASH] toks cur) (\<lambda>(m, c).
       if m then
         pbind (previous_tok toks c) (\<lambda>operator.
         pbind (parse_primary n toks c) (\<lambda>(right, c).
           multiplicative_loop n toks c (BinaryOpNode expr operator right)))
       else p_ok (expr, c))"
| "parse_primary 0 toks cur = None"
| "parse_primary (Suc n) toks cur =
     pbind (match_tok [NUMBER] toks cur) (\<lambda>(m, c).
       if m then pbind (previous_tok toks c) (\<lambda>t. p_ok (NumberNode (tvalue t), c))
       else
     pbind (match_tok [STRING] toks c) (\<lambda>(m, c).
       if m then pbind (previous_tok toks c) (\<lambda>t. p_ok (StringNode (tvalue t), c))
       else
     pbind (match_tok [IDENTIFIER] toks c) (\<lambda>(m, c).
       if m then
         pbind (previous_tok toks c) (\<lambda>t.
         pbind (match_tok [LPAREN] toks c) (\<lambda>(m, c).
           if m then
             pbind (parse_arguments n toks c) (\<lambda>(arguments, c).
             pbind (consume RPAREN ''Expected ')' after function arguments'' toks c) (\<lambda>(u, c).
               p_ok (FunctionCallNode (text_of (tvalue t)) arguments, c)))
           else p_ok (VariableNode (text_of (tvalue t)), c)))
       else
     pbind (match_tok [LPAREN] toks c) (\<lambda>(m, c).
       if m then
         pbind (parse_expression n toks c) (\<lambda>(expr, c).
         pbind (consume RPAREN ''Expected ')' after expression'' toks c) (\<lambda>(u, c).
           p_ok (expr, c)))
       else pbind (peek_tok toks c) (\<lambda>t. p_raise (ParseError ''Unexpected token'' t))))))"
| "parse_arguments 0 toks cur = None"
| "parse_arguments (Suc n) toks cur =
     pbind (check_tok RPAREN toks cur) (\<lambda>b.
       if \<not> b then
         pbind (parse_expression n toks cur) (\<lambda>(e, c). arguments_loop n toks c [e])
       else p_ok ([], cur))"
| "arguments_loop 0 toks cur arguments = None"
| "arguments_loop (Suc n) toks cur arguments =
     pbind (match_tok [COMMA] toks cur) (\<lambda>(m, c).
       if m then
         pbind (parse_expression n toks c) (\<lambda>(e, c). arguments_loop n toks c (arguments @ [e]))
       else p_ok (arguments, c))"
  by pat_completeness auto
termination
  by (relation "measure (case_sum
        (case_sum (case_sum fst (case_sum fst fst)) (case_sum fst (case_sum fst fst)))
        (case_sum (case_sum fst (case_sum fst fst)) (case_sum fst (case_sum fst fst))))")
     simp_all

text \<open>The statement routines that call no statement routine.\<close>

definition parse_expression_statement :: "nat \<Rightarrow> Token list \<Rightarrow> nat \<Rightarrow> (Node \<times> nat) presult" where
  "parse_expression_statement n toks cur =
     pbind (parse_expression n toks cur) (\<lambda>(expr, c).
     pbind (match_tok [SEMICOLON] toks c) (\<lambda>(m, c).
       p_ok (expr, c)))"

definition parse_return_statement :: "nat \<Rightarrow> Token list \<Rightarrow> nat \<Rightarrow> (Node \<times> nat) presult" where
  "parse_return_statement n toks cur =
     pbind (check_tok END toks cur) (\<lambda>at_end_kw.
     pbind (if at_end_kw then p_ok True else check_tok ELSE toks cur) (\<lambda>at_terminator.
     pbind (if \<not> at_terminator
            then pbind (parse_expression n toks cur) (\<lambda>(expr, c). p_ok (Some expr, c))
            else p_ok (None, cur)) (\<lambda>(v, c).
     pbind (match_tok [SEMICOLON] toks c) (\<lambda>(m, c).
       p_ok (ReturnNode v, c)))))"

definition parse_assignment :: "nat \<Rightarrow> Token list \<Rightarrow> nat \<Rightarrow> (Node \<times> nat) presult" where
  "parse_assignment n toks cur =
     pbind (previous_tok toks cur) (\<lambda>prev.
     pbind (if ttype prev = LOCAL
            then consume IDENTIFIER (''Expected variable name after 'local'' @ [CHR 0x27]) toks cur
            else advance_tok toks cur) (\<lambda>(t, c).
     pbind (consume ASSIGN ''Expected '=' after variable name'' toks c) (\<lambda>(u, c).
     pbind (parse_expression n toks c) (\<lambda>(v, c).
     pbind (match_tok [SEMICOLON] toks c) (\<lambda>(m, c).
       p_ok (AssignmentNode (text_of (tvalue t)) v, c))))))"

text \<open>The loop of \<open>parse_function_definition\<close> that reads the parameters after the first.\<close>

fun parameters_loop :: "nat \<Rightarrow> Token list \<Rightarrow> nat \<Rightarrow> string list \<Rightarrow> (string list \<times> nat) presult" where
  "parameters_loop 0 toks cur parameters = None"
| "parameters_loop (Suc n) toks cur parameters =
     pbind (match_tok [COMMA] toks cur) (\<lambda>(m, c).
       if m then
         pbind (consume IDENTIFIER ''Expected parameter name'' toks c) (\<lambda>(t, c).
           parameters_loop n toks c (parameters @ [text_of (tvalue t)]))
       else p_ok (parameters, c))"

text \<open>
  The statement routines that call one another. \<open>parse_statement_list\<close> is its own loop and
  carries the list \<open>statements\<close>, which its callers start empty.
\<close>

function parse_statement :: "nat \<Rightarrow> Token list \<Rightarrow> nat \<Rightarrow> (Node \<times> nat) presult"
  and parse_if_statement :: "nat \<Rightarrow> Token list \<Rightarrow> nat \<Rightarrow> (Node \<times> nat) presult"
  and parse_while_statement :: "nat \<Rightarrow> Token list \<Rightarrow> nat \<Rightarrow> (Node \<times> nat) presult"
  and parse_function_definition :: "nat \<Rightarrow> Token list \<Rightarrow> nat \<Rightarrow> (Node \<times> nat) presult"
  and parse_statement_list ::
    "nat \<Rightarrow> TokenType list \<Rightarrow> Token list \<Rightarrow> nat \<Rightarrow> Node list \<Rightarrow> (Node list \<times> nat) presult"
where
  "parse_statement 0 toks cur = None"
| "parse_statement (Suc n) toks cur =
     pbind (match_tok [IF] toks cur) (\<lambda>(m, c).
       if m then parse_if_statement n toks c else
     pbind (match_tok [WHILE] toks c) (\<lambda>(m, c).
       if m then parse_while_statement n toks c else
     pbind (match_tok [FUNCTION] toks c) (\<lambda>(m, c).
       if m then parse_function_definition n toks c else
     pbind (match_tok [RETURN] toks c) (\<lambda>(m, c).
       if m then parse_return_statement n toks c else
     pbind (match_tok [LOCAL] toks c) (\<lambda>(m, c).
       if m then parse_assignment n toks c else
     pbind (check_tok IDENTIFIER toks c) (\<lambda>b.
       if b \<and> ttype (peek_next_tok toks c) = ASSIGN then parse_assignment n toks c
       else parse_expression_statement n toks c))))))"
| "parse_if_statement 0 toks cur = None"
| "parse_if_statement (Suc n) toks cur =
     pbind (parse_expression n toks cur) (\<lambda>(condition, c).
     pbind (consume THEN ''Expected 'then' after if'' toks c) (\<lambda>(u, c).
     pbind (parse_statement_list n [ELSE, END] toks c []) (\<lambda>(then_statements, c).
     pbind (match_tok [ELSE] toks c) (\<lambda>(m, c).
     pbind (if m
            then pbind (parse_statement_list n [END] toks c []) (\<lambda>(else_statements, c).
                   p_ok (Some (BlockNode else_statements), c))
            else p_ok (None, c)) (\<lambda>(else_branch, c).
     pbind (consume END ''Expected 'end' after if/else block'' toks c) (\<lambda>(u, c).
       p_ok (IfNode condition (BlockNode then_statements) else_branch, c)))))))"
| "parse_while_statement 0 toks cur = None"
| "parse_while_statement (Suc n) toks cur =
     pbind (parse_expression n toks cur) (\<lambda>(condition, c).
     pbind (consume DO ''Expected 'do' after while condition'' toks c) (\<lambda>(u, c).
     pbind (parse_statement_list n [END] toks c []) (\<lambda>(body, c).
     pbind (consume END ''Expected 'end' after while body'' toks c) (\<lambda>(u, c).
       p_ok (WhileNode condition (BlockNode body), c)))))"
| "parse_function_definition 0 toks cur = None"
| "parse_function_definition (Suc n) toks cur =
     pbind (consume IDENTIFIER ''Expected function name'' toks cur) (\<lambda>(name, c).
     pbind (consume LPAREN ''Expected '(' after function name'' toks c) (\<lambda>(u, c).
     pbind (check_tok RPAREN toks c) (\<lambda>b.
     pbind (if \<not> b
            then pbind (consume IDENTIFIER ''Expected parameter name'' toks c) (\<lambda>(t, c).
                   parameters_loop n toks c [text_of (tvalue t)])
            else p_ok ([], c)) (\<lambda>(parameters, c).
     pbind (consume RPAREN ''Expected ')' after parameters'' toks c) (\<lambda>(u, c).
     pbind (parse_statement_list n [END] toks c []) (\<lambda>(body, c).
     pbind (consume END ''Expected 'end' after function body'' toks c) (\<lambda>(u, c).
       p_ok (FunctionNode (text_of (tvalue name)) parameters (BlockNode body), c))))))))"
| "parse_statement_list 0 terminator_tokens toks cur statements = None"
| "parse_statement_list (Suc n) terminator_tokens toks cur statements =
     pbind (tokens_at_end toks cur) (\<lambda>e.
       if e then p_ok (statements, cur) else
     pbind (any_check terminator_tokens toks cur) (\<lambda>a.
       if a then p_ok (statements, cur) else
     pbind (parse_statement n toks cur) (\<lambda>(stmt, c).
       parse_statement_list n terminator_tokens toks c (statements @ [stmt]))))"
  by pat_completeness auto
termination
  by (relation "measure (case_sum (case_sum fst fst) (case_sum fst (case_sum fst fst)))")
     simp_all

text \<open>\<open>Parser.parse\<close>: the loop over the top-level statements, then the program's block.\<close>

fun parse_loop :: "nat \<Rightarrow> Token list \<Rightarrow> nat \<Rightarrow> Node list \<Rightarrow> (Node list \<times> nat) presult" where
  "parse_loop 0 toks cur statements = None"
| "parse_loop (Suc n) toks cur statements =
     pbind (tokens_at_end toks cur) (\<lambda>e.
       if \<not> e then
         pbind (parse_statement n toks cur) (\<lambda>(stmt, c).
           parse_loop n toks c (statements @ [stmt]))
       else p_ok (statements, cur))"

definition parse :: "nat \<Rightarrow> Token list \<Rightarrow> Node presult" where
  "parse n toks = pbind (parse_loop n toks 0 []) (\<lambda>(statements, c). p_ok (BlockNode statements))"

section \<open>The symbol table and the semantic analyzer (semantic.py)\<close>

text \<open>
  The types the analyzer computes are the Python strings \<open>"number"\<close>, \<open>"string"\<close>,
  \<open>"boolean"\<close> and \<open>"any"\<close>; \<open>None\<close> (no type) is \<open>None\<close> of \<open>ty option\<close>.
\<close>

datatype ty = TNumber | TString | TBoolean | TAny

text \<open>
  One constructor for each \<open>SemanticError\<close> message, with the values the message shows.
  \<open>AttributeError\<close> is Python's own exception for \<open>node.body.statements\<close> on a body that
  is no block. \<open>NoEnclosingTable\<close> is no exception of the source: see \<open>enclosing\<close> below.
\<close>

datatype error =
    AlreadyDeclared string              \<comment> \<open>Variable 'name' is already declared in this scope\<close>
  | UndefinedVariable string            \<comment> \<open>Undefined variable 'name'.\<close>
  | FunctionAlreadyDefined string       \<comment> \<open>Function 'name' is already defined.\<close>
  | UndefinedFunction string            \<comment> \<open>Undefined function 'name'.\<close>
  | ArithmeticTypes "ty option" "ty option" int int
      \<comment> \<open>Cannot perform arithmetic between left and right at line, column\<close>
  | IfCondition "ty option"             \<comment> \<open>If condition must be boolean, got type\<close>
  | WhileCondition "ty option"          \<comment> \<open>While condition must be boolean, got type\<close>
  | ArityMismatch string nat nat        \<comment> \<open>Function 'name' expects count arguments but got count.\<close>
  | ReturnOutsideFunction               \<comment> \<open>Return statement outside of function.\<close>
  | AttributeError
  | NoEnclosingTable

text \<open>
  A \<open>SymbolTable\<close> object: its two dictionaries, in insertion order, and its parent.
  \<open>functions_tbl\<close> (the dictionary \<open>functions\<close>) maps a name to \<open>(param_count, param_types, return_type)\<close>.

  In Python a table and the tables nested in it share the parent object; here the parent
  is a part of the child, and there is one copy of it. What the source does to
  \<open>old_symbol_table\<close> while a nested table is current is done to the parent inside the
  current table, and \<open>self.symbol_table = old_symbol_table\<close> makes that parent current.
\<close>

type_synonym func_info = "nat \<times> ty list \<times> ty option"

datatype SymbolTable =
  SymbolTable (variables: "(string \<times> ty option) list")
              (functions_tbl: "(string \<times> func_info) list")
              (parent: "SymbolTable option")

definition declare_variable :: "SymbolTable \<Rightarrow> string \<Rightarrow> ty option \<Rightarrow> error + SymbolTable" where
  "declare_variable tbl name var_type =
     (if map_of (variables tbl) name \<noteq> None then Inl (AlreadyDeclared name)
      else Inr (SymbolTable (variables tbl @ [(name, var_type)]) (functions_tbl tbl) (parent tbl)))"

fun get_variable :: "SymbolTable \<Rightarrow> string \<Rightarrow> error + ty option" where
  "get_variable (SymbolTable vars funs par) name =
     (case map_of vars name of
        Some t \<Rightarrow> Inr t
      | None \<Rightarrow> (case par of Some p \<Rightarrow> get_variable p name
                 | None \<Rightarrow> Inl (UndefinedVariable name)))"

definition declare_function ::
    "SymbolTable \<Rightarrow> string \<Rightarrow> nat \<Rightarrow> ty list \<Rightarrow> ty option \<Rightarrow> error + SymbolTable" where
  "declare_function tbl name param_count param_types return_type =
     (if map_of (functions_tbl tbl) name \<noteq> None then Inl (FunctionAlreadyDefined name)
      else Inr (SymbolTable (variables tbl)
                  (functions_tbl tbl @ [(name, (param_count, param_types, return_type))])
                  (parent tbl)))"

fun get_function :: "SymbolTable \<Rightarrow> string \<Rightarrow> error + func_info" where
  "get_function (SymbolTable vars funs par) name =
     (case map_of funs name of
        Some info \<Rightarrow> Inr info
      | None \<Rightarrow> (case par of Some p \<Rightarrow> get_function p name
                 | None \<Rightarrow> Inl (UndefinedFunction name)))"

text \<open>
  The table that \<open>old_symbol_table\<close> names while a nested table is current. A nested table
  always has a parent (\<open>analyze_node_parent\<close> below), so \<open>NoEnclosingTable\<close> never comes
  out of an analysis that starts in the analyzer's own states.
\<close>

definition enclosing :: "SymbolTable \<Rightarrow> error + SymbolTable" where
  "enclosing tbl = (case parent tbl of Some p \<Rightarrow> Inr p | None \<Rightarrow> Inl NoEnclosingTable)"

record SemanticAnalyzer =
  symbol_table :: SymbolTable
  current_function :: "string option"

definition ebind :: "error + 'a \<Rightarrow> ('a \<Rightarrow> error + 'b) \<Rightarrow> error + 'b" where
  "ebind m f = (case m of Inl e \<Rightarrow> Inl e | Inr x \<Rightarrow> f x)"

text \<open>The loop over \<open>node.params\<close>: every parameter is declared with type \<open>"any"\<close>.\<close>

fun declare_params :: "string list \<Rightarrow> SymbolTable \<Rightarrow> error + SymbolTable" where
  "declare_params [] tbl = Inr tbl"
| "declare_params (param # params) tbl =
     ebind (declare_variable tbl param (Some TAny)) (\<lambda>tbl'. declare_params params tbl')"

text \<open>
  \<open>analyze_node\<close> returns the node's type and the analyzer as the call leaves it.
  \<open>analyze_each\<close> is \<open>for x in xs: self.analyze_node(x)\<close> (the statements of a block, the
  arguments of a call). \<open>scan_returns\<close> is the loop of the \<open>FunctionNode\<close> branch over
  \<open>node.body.statements\<close>, carrying \<open>return_type\<close>.
\<close>

fun analyze_node :: "Node \<Rightarrow> SemanticAnalyzer \<Rightarrow> error + (ty option \<times> SemanticAnalyzer)"
  and analyze_each :: "Node list \<Rightarrow> SemanticAnalyzer \<Rightarrow> error + SemanticAnalyzer"
  and scan_returns ::
    "Node list \<Rightarrow> SemanticAnalyzer \<Rightarrow> ty option \<Rightarrow> error + (ty option \<times> SemanticAnalyzer)"
where
  "analyze_node (NumberNode v) A = Inr (Some TNumber, A)"
| "analyze_node (StringNode v) A = Inr (Some TString, A)"
| "analyze_node (VariableNode name) A =
     ebind (get_variable (symbol_table A) name) (\<lambda>t. Inr (t, A))"
| "analyze_node (BinaryOpNode left op right) A =
     ebind (analyze_node left A) (\<lambda>(left_type, A1).
     ebind (analyze_node right A1) (\<lambda>(right_type, A2).
       if ttype op = DOTDOT then Inr (Some TString, A2)
       else if ttype op \<in> set [PLUS, MINUS, STAR, SLASH] then
         (if left_type \<noteq> Some TNumber \<or> right_type \<noteq> Some TNumber
          then Inl (ArithmeticTypes left_type right_type (tline op) (tcolumn op))
          else Inr (Some TNumber, A2))
       else Inr (Some TBoolean, A2)))"
| "analyze_node (AssignmentNode var_name v) A =
     ebind (analyze_node v A) (\<lambda>(expr_type, A1).
       case get_variable (symbol_table A1) var_name of
         Inr t \<Rightarrow> Inr (expr_type, A1)
       | Inl e \<Rightarrow>
           ebind (declare_variable (symbol_table A1) var_name expr_type) (\<lambda>tbl.
             Inr (expr_type, A1\<lparr>symbol_table := tbl\<rparr>)))"
| "analyze_node (IfNode condition then_branch else_branch) A =
     ebind (analyze_node condition A) (\<lambda>(condition_type, A1).
       if condition_type \<noteq> Some TBoolean then Inl (IfCondition condition_type)
       else
         ebind (analyze_node then_branch A1) (\<lambda>(t, A2).
           case else_branch of
             Some b \<Rightarrow> ebind (analyze_node b A2) (\<lambda>(t, A3). Inr (None, A3))
           | None \<Rightarrow> Inr (None, A2)))"
| "analyze_node (WhileNode condition body) A =
     ebind (analyze_node condition A) (\<lambda>(condition_type, A1).
       if condition_type \<noteq> Some TBoolean then Inl (WhileCondition condition_type)
       else ebind (analyze_node body A1) (\<lambda>(t, A2). Inr (None, A2)))"
| "analyze_node (FunctionNode name params body) A =
     (let old_function = current_function A;
          A1 = A\<lparr>symbol_table := SymbolTable [] [] (Some (symbol_table A)),
                 current_function := Some name\<rparr>
      in
        ebind (declare_params params (symbol_table A1)) (\<lambda>tbl.
        ebind (case body of
                 BlockNode statements \<Rightarrow> scan_returns statements (A1\<lparr>symbol_table := tbl\<rparr>) None
               | _ \<Rightarrow> Inl AttributeError) (\<lambda>(return_type, A2).
        ebind (enclosing (symbol_table A2)) (\<lambda>old_symbol_table.
        ebind (declare_function old_symbol_table name (length params)
                 (replicate (length params) TAny) return_type) (\<lambda>old'.
        ebind (analyze_node body
                 (A2\<lparr>symbol_table :=
                       SymbolTable (variables (symbol_table A2)) (functions_tbl (symbol_table A2))
                         (Some old')\<rparr>)) (\<lambda>(t, A3).
        ebind (enclosing (symbol_table A3)) (\<lambda>old''.
          Inr (None, A3\<lparr>symbol_table := old'', current_function := old_function\<rparr>))))))))"
| "analyze_node (FunctionCallNode name arguments) A =
     ebind (get_function (symbol_table A) name) (\<lambda>(param_count, param_types, return_type).
       if length arguments \<noteq> param_count
       then Inl (ArityMismatch name param_count (length arguments))
       else
         ebind (analyze_each arguments A) (\<lambda>A1.
           Inr (case return_type of Some t \<Rightarrow> Some t | None \<Rightarrow> Some TAny, A1)))"
| "analyze_node (ReturnNode v) A =
     (if current_function A = None \<or> current_function A = Some []
      then Inl ReturnOutsideFunction
      else (case v of
              Some e \<Rightarrow> analyze_node e A
            | None \<Rightarrow> Inr (None, A)))"
| "analyze_node (BlockNode statements) A =
     ebind (analyze_each statements
              (A\<lparr>symbol_table := SymbolTable [] [] (Some (symbol_table A))\<rparr>)) (\<lambda>A1.
     ebind (enclosing (symbol_table A1)) (\<lambda>old_symbol_table.
       Inr (None, A1\<lparr>symbol_table := old_symbol_table\<rparr>)))"
| "analyze_each [] A = Inr A"
| "analyze_each (x # xs) A = ebind (analyze_node x A) (\<lambda>(t, A1). analyze_each xs A1)"
| "scan_returns [] A return_type = Inr (return_type, A)"
| "scan_returns (ReturnNode (Some v) # stmts) A return_type =
     ebind (analyze_node v A) (\<lambda>(t, A1). scan_returns stmts A1 t)"
| "scan_returns (stmt # stmts) A return_type = scan_returns stmts A return_type"

text \<open>
  \<open>SemanticAnalyzer()\<close>: the global table with the built-in \<open>print\<close>, and no current
  function. \<open>analyze\<close> is given one node (\<open>main.py\<close> passes the program's block), wraps
  it in a list and returns \<open>True\<close> when no exception was raised.
\<close>

definition new_SemanticAnalyzer :: SemanticAnalyzer where
  "new_SemanticAnalyzer =
     \<lparr>symbol_table = SymbolTable [] [(''print'', (1, [TAny], None))] None,
      current_function = None\<rparr>"

definition analyze :: "Node \<Rightarrow> error + bool" where
  "analyze node = ebind (analyze_each [node] new_SemanticAnalyzer) (\<lambda>A. Inr True)"

text \<open>
  The three stages as \<open>main.py\<close> runs them, with the parser's fuel: \<open>None\<close> when the fuel
  runs out, otherwise the stage that raised and its exception, or \<open>Accepted\<close>.
\<close>

datatype outcome =
    LexerRaised lex_error
  | ParserRaised parse_error
  | AnalyzerRaised error
  | Accepted

definition compile :: "nat \<Rightarrow> string \<Rightarrow> outcome option" where
  "compile fuel code =
     (case lexer_tokens code of
        Inl e \<Rightarrow> Some (LexerRaised e)
      | Inr toks \<Rightarrow>
          (case parse fuel toks of
             None \<Rightarrow> None
           | Some (Inl e) \<Rightarrow> Some (ParserRaised e)
           | Some (Inr ast) \<Rightarrow>
               (case analyze ast of
                  Inl e \<Rightarrow> Some (AnalyzerRaised e)
                | Inr ok \<Rightarrow> Some Accepted)))"

section \<open>Facts about the analyzer\<close>

lemma ebind_Inr: "ebind m f = Inr y \<longleftrightarrow> (\<exists>x. m = Inr x \<and> f x = Inr y)"
  by (cases m) (auto simp: ebind_def)

lemma ebind_Inl: "ebind m f = Inl e \<longleftrightarrow> (m = Inl e \<or> (\<exists>x. m = Inr x \<and> f x = Inl e))"
  by (cases m) (auto simp: ebind_def)

lemma declare_variable_parent:
  "declare_variable tbl x t = Inr tbl' \<Longrightarrow> parent tbl' = parent tbl"
  by (auto simp: declare_variable_def split: if_splits)

lemma declare_function_parent:
  "declare_function tbl f n ps r = Inr tbl' \<Longrightarrow> parent tbl' = parent tbl"
  by (auto simp: declare_function_def split: if_splits)

lemma declare_params_parent:
  "declare_params ps tbl = Inr tbl' \<Longrightarrow> parent tbl' = parent tbl"
  by (induction ps arbitrary: tbl) (auto simp: ebind_Inr dest!: declare_variable_parent)

text \<open>
  What an analysis must leave alone: the parent of the current table and the current
  function. Each call of \<open>analyze_node\<close> that returns leaves both as it found them, so
  the table that is current afterwards is the one that was current before, and the
  enclosing tables are never written while a nested table is current.
\<close>

definition frame :: "SemanticAnalyzer \<Rightarrow> SymbolTable option \<times> string option" where
  "frame A = (parent (symbol_table A), current_function A)"

lemma analyze_frame:
  "(\<forall>t A'. analyze_node node A = Inr (t, A') \<longrightarrow> frame A' = frame A)"
  "(\<forall>A'. analyze_each nodes A = Inr A' \<longrightarrow> frame A' = frame A)"
  "(\<forall>t A'. scan_returns nodes A rt = Inr (t, A') \<longrightarrow> frame A' = frame A)"
proof (induction node A and nodes A and nodes A rt
    rule: analyze_node_analyze_each_scan_returns.induct)
  case (1 v A) show ?case by simp
next
  case (2 v A) show ?case by simp
next
  case (3 name A) show ?case by (auto simp: ebind_Inr)
next
  case (4 left op right A)
  show ?case using 4 by (auto simp: ebind_Inr split: if_splits)
next
  case (5 var_name v A)
  show ?case
  proof (intro allI impI)
    fix t A'
    assume "analyze_node (AssignmentNode var_name v) A = Inr (t, A')"
    then obtain et A1 where a: "analyze_node v A = Inr (et, A1)"
      and r: "(case get_variable (symbol_table A1) var_name of
                 Inr t0 \<Rightarrow> Inr (et, A1)
               | Inl e \<Rightarrow> ebind (declare_variable (symbol_table A1) var_name et)
                          (\<lambda>tbl. Inr (et, A1\<lparr>symbol_table := tbl\<rparr>))) = Inr (t, A')"
      by (auto simp: ebind_Inr)
    have "frame A' = frame A1"
      using r by (cases "get_variable (symbol_table A1) var_name")
        (auto simp: ebind_Inr frame_def dest!: declare_variable_parent)
    with 5 a show "frame A' = frame A" by simp
  qed
next
  case (6 condition then_branch else_branch A)
  show ?case using 6 by (auto simp: ebind_Inr split: if_splits option.splits)
next
  case (7 condition body A)
  show ?case using 7 by (auto simp: ebind_Inr split: if_splits)
next
  case (8 name params body A)
  let ?A1 = "A\<lparr>symbol_table := SymbolTable [] [] (Some (symbol_table A)),
                 current_function := Some name\<rparr>"
  show ?case
  proof (intro allI impI)
    fix t A'
    assume "analyze_node (FunctionNode name params body) A = Inr (t, A')"
    then obtain tbl rt A2 old old' t3 A3 old'' where
      p: "declare_params params (SymbolTable [] [] (Some (symbol_table A))) = Inr tbl"
      and c: "(case body of
                 BlockNode statements \<Rightarrow> scan_returns statements (?A1\<lparr>symbol_table := tbl\<rparr>) None
               | _ \<Rightarrow> Inl AttributeError) = Inr (rt, A2)"
      and e1: "enclosing (symbol_table A2) = Inr old"
      and d: "declare_function old name (length params) (replicate (length params) TAny) rt
                = Inr old'"
      and an: "analyze_node body
                 (A2\<lparr>symbol_table := SymbolTable (variables (symbol_table A2))
                    (functions_tbl (symbol_table A2)) (Some old')\<rparr>) = Inr (t3, A3)"
      and e2: "enclosing (symbol_table A3) = Inr old''"
      and r: "A' = A3\<lparr>symbol_table := old'', current_function := current_function A\<rparr>"
      by (auto simp: ebind_Inr Let_def)
    from c obtain stmts where b: "body = BlockNode stmts"
      and s: "scan_returns stmts (?A1\<lparr>symbol_table := tbl\<rparr>) None = Inr (rt, A2)"
      by (cases body) auto
    have "frame A2 = frame (?A1\<lparr>symbol_table := tbl\<rparr>)"
      using "8.IH"(1)[OF refl refl b] s by blast
    then have "parent (symbol_table A2) = Some (symbol_table A)"
      using declare_params_parent[OF p] by (simp add: frame_def)
    then have o: "old = symbol_table A" using e1 by (simp add: enclosing_def)
    have "frame A3 = frame (A2\<lparr>symbol_table := SymbolTable (variables (symbol_table A2))
                    (functions_tbl (symbol_table A2)) (Some old')\<rparr>)"
      using "8.IH"(2)[OF refl refl] an by blast
    then have "old'' = old'" using e2 by (auto simp: frame_def enclosing_def split: option.splits)
    then show "frame A' = frame A"
      using r o declare_function_parent[OF d] by (simp add: frame_def)
  qed
next
  case (9 name arguments A)
  show ?case using 9 by (auto simp: ebind_Inr split: if_splits)
next
  case (10 v A)
  show ?case using 10 by (auto split: if_splits option.splits)
next
  case (11 statements A)
  show ?case using 11 by (auto simp: ebind_Inr enclosing_def frame_def split: option.splits)
next
  case (12 A) show ?case by simp
next
  case (13 x xs A)
  show ?case using 13 by (auto simp: ebind_Inr)
next
  case (14 A rt) show ?case by simp
next
  case (15 v stmts A rt)
  show ?case using 15 by (auto simp: ebind_Inr)
qed simp_all

lemma frame_eqD:
  "frame A' = frame A \<Longrightarrow>
     parent (symbol_table A') = parent (symbol_table A) \<and> current_function A' = current_function A"
  by (simp add: frame_def)

lemma analyze_each_frame: "analyze_each nodes A = Inr A' \<Longrightarrow> frame A' = frame A"
  using analyze_frame(2) by blast

lemma analyze_node_frame: "analyze_node node A = Inr (t, A') \<Longrightarrow> frame A' = frame A"
  using analyze_frame(1) by blast

lemma block_restores:
  "analyze_node (BlockNode statements) A =
     (case analyze_each statements (A\<lparr>symbol_table := SymbolTable [] [] (Some (symbol_table A))\<rparr>) of
        Inl e \<Rightarrow> Inl e
      | Inr A1 \<Rightarrow> Inr (None, A))"
proof (cases "analyze_each statements (A\<lparr>symbol_table := SymbolTable [] [] (Some (symbol_table A))\<rparr>)")
  case (Inl e)
  then show ?thesis by (simp add: ebind_def)
next
  case (Inr A1)
  from analyze_each_frame[OF Inr]
  have "parent (symbol_table A1) = Some (symbol_table A)" "current_function A1 = current_function A"
    by (simp_all add: frame_def)
  then have "A1\<lparr>symbol_table := symbol_table A\<rparr> = A" by (cases A, cases A1) simp
  then show ?thesis
    using Inr \<open>parent (symbol_table A1) = Some (symbol_table A)\<close>
    by (simp add: ebind_def enclosing_def)
qed

text \<open>
  The nodes that \<open>parse_expression\<close> builds: literals, variables, binary operations and
  calls. Analyzing one changes nothing in the analyzer.
\<close>

fun is_expression :: "Node \<Rightarrow> bool" where
  "is_expression (NumberNode v) = True"
| "is_expression (StringNode v) = True"
| "is_expression (VariableNode name) = True"
| "is_expression (BinaryOpNode left op right) = (is_expression left \<and> is_expression right)"
| "is_expression (FunctionCallNode name arguments) = list_all is_expression arguments"
| "is_expression node = False"

text \<open>
  The values of the \<open>Return\<close> nodes that stand directly in a statement list and carry a
  value, in order: the statements that pass the test
  \<open>isinstance(stmt, ReturnNode) and stmt.value\<close>.
\<close>

fun direct_return_values :: "Node list \<Rightarrow> Node list" where
  "direct_return_values [] = []"
| "direct_return_values (ReturnNode (Some v) # stmts) = v # direct_return_values stmts"
| "direct_return_values (stmt # stmts) = direct_return_values stmts"

lemma expression_keeps_state:
  "is_expression node \<longrightarrow> (\<forall>t A'. analyze_node node A = Inr (t, A') \<longrightarrow> A' = A)"
  "list_all is_expression nodes \<longrightarrow> (\<forall>A'. analyze_each nodes A = Inr A' \<longrightarrow> A' = A)"
  "list_all is_expression (direct_return_values nodes) \<longrightarrow>
     (\<forall>t A'. scan_returns nodes A rt = Inr (t, A') \<longrightarrow> A' = A)"
proof (induction node A and nodes A and nodes A rt
    rule: analyze_node_analyze_each_scan_returns.induct)
  case (3 name A) show ?case by (auto simp: ebind_Inr)
next
  case (4 left op right A)
  show ?case using 4 by (auto simp: ebind_Inr split: if_splits)
next
  case (9 name arguments A)
  show ?case using 9 by (auto simp: ebind_Inr split: if_splits)
next
  case (13 x xs A)
  show ?case using 13 by (auto simp: ebind_Inr)
next
  case (15 v stmts A rt)
  show ?case using 15 by (auto simp: ebind_Inr)
qed simp_all

lemma declare_variable_Inl:
  "declare_variable tbl x t = Inl e \<Longrightarrow> e = AlreadyDeclared x"
  by (auto simp: declare_variable_def split: if_splits)

lemma declare_params_Inl:
  "declare_params ps tbl = Inl e \<Longrightarrow> \<exists>x \<in> set ps. e = AlreadyDeclared x"
  by (induction ps arbitrary: tbl) (auto simp: ebind_Inl dest!: declare_variable_Inl)

lemma declare_function_Inl:
  "declare_function tbl f n ps r = Inl e \<Longrightarrow> e = FunctionAlreadyDefined f"
  by (auto simp: declare_function_def split: if_splits)

lemma get_variable_Inl: "get_variable tbl x = Inl e \<Longrightarrow> e = UndefinedVariable x"
  by (induction tbl x rule: get_variable.induct) (auto split: option.splits)

lemma get_function_Inl: "get_function tbl f = Inl e \<Longrightarrow> e = UndefinedFunction f"
  by (induction tbl f rule: get_function.induct) (auto split: option.splits)

lemma enclosing_Inl: "enclosing tbl = Inl e \<Longrightarrow> e = NoEnclosingTable"
  by (auto simp: enclosing_def split: option.splits)

text \<open>An \<open>ArityMismatch\<close> that an analysis raises never shows two equal counts.\<close>

fun counts_differ :: "error \<Rightarrow> bool" where
  "counts_differ (ArityMismatch f a b) = (a \<noteq> b)"
| "counts_differ e = True"

lemma arity_mismatch_counts_differ:
  "\<forall>e. analyze_node node A = Inl e \<longrightarrow> counts_differ e"
  "\<forall>e. analyze_each nodes A = Inl e \<longrightarrow> counts_differ e"
  "\<forall>e. scan_returns nodes A rt = Inl e \<longrightarrow> counts_differ e"
proof (induction node A and nodes A and nodes A rt
    rule: analyze_node_analyze_each_scan_returns.induct)
  case (3 name A) show ?case by (auto simp: ebind_Inl dest!: get_variable_Inl)
next
  case (4 left op right A)
  show ?case using 4 by (auto simp: ebind_Inl split: if_splits)
next
  case (5 var_name v A)
  show ?case
  proof (intro allI impI)
    fix e
    assume "analyze_node (AssignmentNode var_name v) A = Inl e"
    then consider "analyze_node v A = Inl e"
      | et A1 where "analyze_node v A = Inr (et, A1)"
          "(case get_variable (symbol_table A1) var_name of
              Inr t0 \<Rightarrow> Inr (et, A1)
            | Inl e \<Rightarrow> ebind (declare_variable (symbol_table A1) var_name et)
                       (\<lambda>tbl. Inr (et, A1\<lparr>symbol_table := tbl\<rparr>))) = Inl e"
      by (auto simp: ebind_Inl)
    then show "counts_differ e"
    proof cases
      case 1
      with 5 show ?thesis by simp
    next
      case 2
      then show ?thesis
        by (cases "get_variable (symbol_table A1) var_name")
           (auto simp: ebind_Inl dest!: declare_variable_Inl)
    qed
  qed
next
  case (6 condition then_branch else_branch A)
  show ?case using 6 by (auto simp: ebind_Inl split: if_splits option.splits)
next
  case (7 condition body A)
  show ?case using 7 by (auto simp: ebind_Inl split: if_splits)
next
  case (8 name params body A)
  let ?A1 = "A\<lparr>symbol_table := SymbolTable [] [] (Some (symbol_table A)),
                 current_function := Some name\<rparr>"
  show ?case
  proof (intro allI impI)
    fix e
    assume a: "analyze_node (FunctionNode name params body) A = Inl e"
    have scan: "counts_differ e'"
      if "(case body of
             BlockNode statements \<Rightarrow> scan_returns statements (?A1\<lparr>symbol_table := tbl\<rparr>) None
           | _ \<Rightarrow> Inl AttributeError) = Inl e'" for tbl e'
      using that "8.IH"(1)[OF refl refl] by (cases body) auto
    from a show "counts_differ e"
      using scan "8.IH"(2)[OF refl refl]
      by (auto simp: ebind_Inl Let_def
          dest!: declare_params_Inl declare_function_Inl enclosing_Inl)
  qed
next
  case (9 name arguments A)
  show ?case using 9 by (auto simp: ebind_Inl split: if_splits dest!: get_function_Inl)
next
  case (10 v A)
  show ?case using 10 by (auto split: if_splits option.splits)
next
  case (11 statements A)
  show ?case using 11 by (auto simp: ebind_Inl dest!: enclosing_Inl)
next
  case (13 x xs A)
  show ?case using 13 by (auto simp: ebind_Inl)
next
  case (15 v stmts A rt)
  show ?case using 15 by (auto simp: ebind_Inl)
qed simp_all

lemma expression_state: "is_expression node \<Longrightarrow> analyze_node node A = Inr (t, A') \<Longrightarrow> A' = A"
  using expression_keeps_state(1) by blast



lemma declare_params_duplicate:
  "\<not> distinct ps \<or> (\<exists>x \<in> set ps. map_of (variables tbl) x \<noteq> None) \<Longrightarrow>
     \<exists>x \<in> set ps. (map_of (variables tbl) x \<noteq> None \<or> 1 < count_list ps x)
        \<and> declare_params ps tbl = Inl (AlreadyDeclared x)"
proof (induction ps arbitrary: tbl)
  case Nil
  then show ?case by simp
next
  case (Cons p ps)
  show ?case
  proof (cases "map_of (variables tbl) p \<noteq> None")
    case True
    then show ?thesis by (auto simp: declare_variable_def ebind_def)
  next
    case False
    let ?tbl' = "SymbolTable (variables tbl @ [(p, Some TAny)]) (functions_tbl tbl) (parent tbl)"
    have d: "declare_params (p # ps) tbl = declare_params ps ?tbl'"
      using False by (simp add: declare_variable_def ebind_def)
    have v: "map_of (variables ?tbl') x \<noteq> None \<longleftrightarrow> map_of (variables tbl) x \<noteq> None \<or> x = p" for x
      by (auto simp: map_of_append map_add_def split: option.splits)
    from Cons.prems False
    have "\<not> distinct ps \<or> (\<exists>x \<in> set ps. map_of (variables ?tbl') x \<noteq> None)"
      by (auto simp: v)
    from Cons.IH[OF this] obtain x where x: "x \<in> set ps"
      "map_of (variables ?tbl') x \<noteq> None \<or> 1 < count_list ps x"
      "declare_params ps ?tbl' = Inl (AlreadyDeclared x)" by blast
    from x(1) have "count_list ps x \<noteq> 0" by (simp add: count_list_0_iff)
    then have "map_of (variables tbl) x \<noteq> None \<or> 1 < count_list (p # ps) x"
      using x(2) by (auto simp: v)
    with x d show ?thesis by auto
  qed
qed

text \<open>
  The analyzer while the returns of a function are scanned: the function's table, holding
  the parameters, nested in the table of the declaration, and the function's name.
\<close>

definition function_scope :: "string \<Rightarrow> string list \<Rightarrow> SemanticAnalyzer \<Rightarrow> SemanticAnalyzer" where
  "function_scope name params A =
     A\<lparr>symbol_table :=
          SymbolTable (map (\<lambda>p. (p, Some TAny)) params) [] (Some (symbol_table A)),
       current_function := Some name\<rparr>"


text \<open>
  The tables that a lookup visits, innermost first, and \<open>name in self.variables\<close> for one
  table. \<open>get_variable\<close> fails exactly when no table of the chain declares the name.
\<close>

fun scopes :: "SymbolTable \<Rightarrow> SymbolTable list" where
  "scopes (SymbolTable vars funs par) =
     SymbolTable vars funs par # (case par of None \<Rightarrow> [] | Some p \<Rightarrow> scopes p)"

definition declared_in :: "string \<Rightarrow> SymbolTable \<Rightarrow> bool" where
  "declared_in x tbl = (map_of (variables tbl) x \<noteq> None)"

lemma get_variable_undefined_iff:
  "get_variable tbl x = Inl (UndefinedVariable x) \<longleftrightarrow> \<not> list_ex (declared_in x) (scopes tbl)"
  by (induction tbl x rule: get_variable.induct)
     (auto simp: declared_in_def split: option.splits)

lemma get_variable_defined_iff:
  "(\<exists>t. get_variable tbl x = Inr t) \<longleftrightarrow> list_ex (declared_in x) (scopes tbl)"
  by (induction tbl x rule: get_variable.induct)
     (auto simp: declared_in_def split: option.splits)

lemma scopes_head: "\<not> list_ex (declared_in x) (scopes tbl) \<Longrightarrow> map_of (variables tbl) x = None"
  by (cases tbl) (simp add: declared_in_def)

lemma get_variable_local:
  "map_of vars x = Some t \<Longrightarrow> get_variable (SymbolTable vars funs par) x = Inr t"
  by simp



text \<open>
  \<open>name in self.functions\<close>, for one table. \<open>get_function\<close> answers with the entry of the
  innermost table of the chain that declares the name, however deep that table is, and
  raises exactly when no table of the chain declares the name.
\<close>

definition declares_function :: "string \<Rightarrow> SymbolTable \<Rightarrow> bool" where
  "declares_function name tbl = (map_of (functions_tbl tbl) name \<noteq> None)"

lemma get_function_innermost:
  "List.find (declares_function name) (scopes tbl) = Some T \<Longrightarrow>
     map_of (functions_tbl T) name = Some info \<Longrightarrow> get_function tbl name = Inr info"
  by (induction tbl name rule: get_function.induct)
     (auto simp: declares_function_def split: option.splits if_splits)

lemma get_function_undefined_iff:
  "get_function tbl name = Inl (UndefinedFunction name)
     \<longleftrightarrow> \<not> list_ex (declares_function name) (scopes tbl)"
  by (induction tbl name rule: get_function.induct)
     (auto simp: declares_function_def split: option.splits)
section \<open>Facts about the parser\<close>

text \<open>The cursor routines at a cursor inside the token list.\<close>

lemma pbind_simps [simp]:
  "pbind (Some (Inr x)) f = f x"
  "pbind (Some (Inl e)) f = Some (Inl e)"
  "pbind None f = None"
  by (simp_all add: pbind_def)

lemma peek_tok_at: "cur < length toks \<Longrightarrow> peek_tok toks cur = Some (Inr (toks ! cur))"
  by (simp add: peek_tok_def p_ok_def)

lemma tokens_at_end_at:
  "cur < length toks \<Longrightarrow> tokens_at_end toks cur = Some (Inr (ttype (toks ! cur) = EOF))"
  by (simp add: tokens_at_end_def peek_tok_at p_ok_def)

lemma check_tok_at:
  "cur < length toks \<Longrightarrow>
     check_tok ty toks cur = Some (Inr (ttype (toks ! cur) \<noteq> EOF \<and> ttype (toks ! cur) = ty))"
  by (simp add: check_tok_def tokens_at_end_at peek_tok_at p_ok_def)

lemma advance_tok_at:
  "cur < length toks \<Longrightarrow> ttype (toks ! cur) \<noteq> EOF \<Longrightarrow>
     advance_tok toks cur = Some (Inr (toks ! cur, cur + 1))"
  by (simp add: advance_tok_def tokens_at_end_at previous_tok_def p_ok_def)

lemma match_tok_single:
  "cur < length toks \<Longrightarrow>
     match_tok [ty] toks cur =
       Some (Inr (if ttype (toks ! cur) \<noteq> EOF \<and> ttype (toks ! cur) = ty
                  then (True, cur + 1) else (False, cur)))"
  by (simp add: check_tok_at advance_tok_at p_ok_def)

declare match_tok.simps [simp del]

lemma consume_at:
  "cur < length toks \<Longrightarrow> ttype (toks ! cur) = ty \<Longrightarrow> ty \<noteq> EOF \<Longrightarrow>
     consume ty message toks cur = Some (Inr (toks ! cur, cur + 1))"
  by (simp add: consume_def check_tok_at advance_tok_at)

lemma previous_tok_some:
  "toks \<noteq> [] \<Longrightarrow> cur \<le> length toks \<Longrightarrow> \<exists>t. previous_tok toks cur = Some (Inr t)"
  by (auto simp: previous_tok_def p_ok_def)

lemma parse_assignment_at:
  assumes "parse_expression n toks (j + 2) = Some (Inr (v, c))" and "c < length toks"
    and "j + 1 < length toks" and "ttype (toks ! j) = IDENTIFIER"
    and "tvalue (toks ! j) = PyStr x" and "ttype (toks ! (j + 1)) = ASSIGN"
  shows "parse_assignment n toks j =
           Some (Inr (AssignmentNode x v, if ttype (toks ! c) = SEMICOLON then c + 1 else c))"
proof -
  from assms(3) have j: "j < length toks" "toks \<noteq> []" "j \<le> length toks" by auto
  obtain prev where p: "previous_tok toks j = Some (Inr prev)"
    using previous_tok_some[OF j(2,3)] by blast
  show ?thesis
    using p assms j(1)
    by (cases "ttype prev = LOCAL")
       (simp_all add: parse_assignment_def consume_at advance_tok_at match_tok_single p_ok_def)
qed

text \<open>
  More fuel never changes what a routine returns: a result obtained with some fuel is the
  result with any larger fuel. \<open>fuel_le a b\<close> says that \<open>b\<close> is \<open>a\<close> unless \<open>a\<close> ran out of fuel.
\<close>

definition fuel_le :: "'a option \<Rightarrow> 'a option \<Rightarrow> bool" where
  "fuel_le a b = (a = None \<or> a = b)"

lemma fuel_le_refl [simp]: "fuel_le a a"
  by (simp add: fuel_le_def)

lemma fuel_le_None [simp]: "fuel_le None b"
  by (simp add: fuel_le_def)

lemma fuel_le_pbind:
  "fuel_le m m' \<Longrightarrow> (\<And>x. fuel_le (f x) (f' x)) \<Longrightarrow> fuel_le (pbind m f) (pbind m' f')"
  by (auto simp: fuel_le_def pbind_def split: option.splits sum.splits)

lemma fuel_le_if:
  "(c \<Longrightarrow> fuel_le a a') \<Longrightarrow> (\<not> c \<Longrightarrow> fuel_le b b') \<Longrightarrow>
     fuel_le (if c then a else b) (if c then a' else b')"
  by simp

lemma fuel_le_prod:
  "(\<And>a b. fuel_le (f a b) (g a b)) \<Longrightarrow> fuel_le (case p of (a, b) \<Rightarrow> f a b) (case p of (a, b) \<Rightarrow> g a b)"
  by (cases p) simp

lemmas fuel_le_intros = fuel_le_pbind fuel_le_if fuel_le_prod fuel_le_refl

lemma expression_fuel_step:
  "(\<forall>toks cur. fuel_le (parse_expression n toks cur) (parse_expression (Suc n) toks cur))
 \<and> (\<forall>toks cur. fuel_le (parse_concat n toks cur) (parse_concat (Suc n) toks cur))
 \<and> (\<forall>toks cur e. fuel_le (concat_loop n toks cur e) (concat_loop (Suc n) toks cur e))
 \<and> (\<forall>toks cur. fuel_le (parse_comparison n toks cur) (parse_comparison (Suc n) toks cur))
 \<and> (\<forall>toks cur e. fuel_le (comparison_loop n toks cur e) (comparison_loop (Suc n) toks cur e))
 \<and> (\<forall>toks cur. fuel_le (parse_additive n toks cur) (parse_additive (Suc n) toks cur))
 \<and> (\<forall>toks cur e. fuel_le (additive_loop n toks cur e) (additive_loop (Suc n) toks cur e))
 \<and> (\<forall>toks cur. fuel_le (parse_multiplicative n toks cur) (parse_multiplicative (Suc n) toks cur))
 \<and> (\<forall>toks cur e. fuel_le (multiplicative_loop n toks cur e) (multiplicative_loop (Suc n) toks cur e))
 \<and> (\<forall>toks cur. fuel_le (parse_primary n toks cur) (parse_primary (Suc n) toks cur))
 \<and> (\<forall>toks cur. fuel_le (parse_arguments n toks cur) (parse_arguments (Suc n) toks cur))
 \<and> (\<forall>toks cur a. fuel_le (arguments_loop n toks cur a) (arguments_loop (Suc n) toks cur a))"
proof (induction n)
  case 0
  show ?case by simp
next
  case (Suc n)
  then have IH:
    "\<And>toks cur. fuel_le (parse_expression n toks cur) (parse_expression (Suc n) toks cur)"
    "\<And>toks cur. fuel_le (parse_concat n toks cur) (parse_concat (Suc n) toks cur)"
    "\<And>toks cur e. fuel_le (concat_loop n toks cur e) (concat_loop (Suc n) toks cur e)"
    "\<And>toks cur. fuel_le (parse_comparison n toks cur) (parse_comparison (Suc n) toks cur)"
    "\<And>toks cur e. fuel_le (comparison_loop n toks cur e) (comparison_loop (Suc n) toks cur e)"
    "\<And>toks cur. fuel_le (parse_additive n toks cur) (parse_additive (Suc n) toks cur)"
    "\<And>toks cur e. fuel_le (additive_loop n toks cur e) (additive_loop (Suc n) toks cur e)"
    "\<And>toks cur. fuel_le (parse_multiplicative n toks cur) (parse_multiplicative (Suc n) toks cur)"
    "\<And>toks cur e. fuel_le (multiplicative_loop n toks cur e) (multiplicative_loop (Suc n) toks cur e)"
    "\<And>toks cur. fuel_le (parse_primary n toks cur) (parse_primary (Suc n) toks cur)"
    "\<And>toks cur. fuel_le (parse_arguments n toks cur) (parse_arguments (Suc n) toks cur)"
    "\<And>toks cur a. fuel_le (arguments_loop n toks cur a) (arguments_loop (Suc n) toks cur a)"
    by simp_all
  show ?case
  proof (intro conjI allI)
    show "fuel_le (parse_expression (Suc n) toks cur) (parse_expression (Suc (Suc n)) toks cur)" for toks cur
      unfolding parse_expression.simps(2)[of n toks cur] parse_expression.simps(2)[of "Suc n" toks cur]
      by (intro fuel_le_intros IH)
    show "fuel_le (parse_concat (Suc n) toks cur) (parse_concat (Suc (Suc n)) toks cur)" for toks cur
      unfolding parse_concat.simps(2)[of n toks cur] parse_concat.simps(2)[of "Suc n" toks cur]
      by (intro fuel_le_intros IH)
    show "fuel_le (concat_loop (Suc n) toks cur e) (concat_loop (Suc (Suc n)) toks cur e)" for toks cur e
      unfolding concat_loop.simps(2)[of n toks cur e] concat_loop.simps(2)[of "Suc n" toks cur e]
      by (intro fuel_le_intros IH)
    show "fuel_le (parse_comparison (Suc n) toks cur) (parse_comparison (Suc (Suc n)) toks cur)" for toks cur
      unfolding parse_comparison.simps(2)[of n toks cur] parse_comparison.simps(2)[of "Suc n" toks cur]
      by (intro fuel_le_intros IH)
    show "fuel_le (comparison_loop (Suc n) toks cur e) (comparison_loop (Suc (Suc n)) toks cur e)" for toks cur e
      unfolding comparison_loop.simps(2)[of n toks cur e] comparison_loop.simps(2)[of "Suc n" toks cur e]
      by (intro fuel_le_intros IH)
    show "fuel_le (parse_additive (Suc n) toks cur) (parse_additive (Suc (Suc n)) toks cur)" for toks cur
      unfolding parse_additive.simps(2)[of n toks cur] parse_additive.simps(2)[of "Suc n" toks cur]
      by (intro fuel_le_intros IH)
    show "fuel_le (additive_loop (Suc n) toks cur e) (additive_loop (Suc (Suc n)) toks cur e)" for toks cur e
      unfolding additive_loop.simps(2)[of n toks cur e] additive_loop.simps(2)[of "Suc n" toks cur e]
      by (intro fuel_le_intros IH)
    show "fuel_le (parse_multiplicative (Suc n) toks cur) (parse_multiplicative (Suc (Suc n)) toks cur)" for toks cur
      unfolding parse_multiplicative.simps(2)[of n toks cur] parse_multiplicative.simps(2)[of "Suc n" toks cur]
      by (intro fuel_le_intros IH)
    show "fuel_le (multiplicative_loop (Suc n) toks cur e) (multiplicative_loop (Suc (Suc n)) toks cur e)" for toks cur e
      unfolding multiplicative_loop.simps(2)[of n toks cur e] multiplicative_loop.simps(2)[of "Suc n" toks cur e]
      by (intro fuel_le_intros IH)
    show "fuel_le (parse_primary (Suc n) toks cur) (parse_primary (Suc (Suc n)) toks cur)" for toks cur
      unfolding parse_primary.simps(2)[of n toks cur] parse_primary.simps(2)[of "Suc n" toks cur]
      by (intro fuel_le_intros IH)
    show "fuel_le (parse_arguments (Suc n) toks cur) (parse_arguments (Suc (Suc n)) toks cur)" for toks cur
      unfolding parse_arguments.simps(2)[of n toks cur] parse_arguments.simps(2)[of "Suc n" toks cur]
      by (intro fuel_le_intros IH)
    show "fuel_le (arguments_loop (Suc n) toks cur a) (arguments_loop (Suc (Suc n)) toks cur a)" for toks cur a
      unfolding arguments_loop.simps(2)[of n toks cur a] arguments_loop.simps(2)[of "Suc n" toks cur a]
      by (intro fuel_le_intros IH)
  qed
qed

lemma expression_fuel:
  "fuel_le (parse_expression n toks cur) (parse_expression (Suc n) toks cur)"
  using expression_fuel_step[of n] by simp

lemma simple_statement_fuel:
  "fuel_le (parse_expression_statement n toks cur) (parse_expression_statement (Suc n) toks cur)"
  "fuel_le (parse_return_statement n toks cur) (parse_return_statement (Suc n) toks cur)"
  "fuel_le (parse_assignment n toks cur) (parse_assignment (Suc n) toks cur)"
  unfolding parse_expression_statement_def parse_return_statement_def parse_assignment_def
  by (intro fuel_le_intros expression_fuel)+

lemma parameters_loop_fuel:
  "fuel_le (parameters_loop n toks cur ps) (parameters_loop (Suc n) toks cur ps)"
proof (induction n arbitrary: cur ps)
  case 0
  show ?case by simp
next
  case (Suc n)
  show ?case
    unfolding parameters_loop.simps(2)[of n toks cur ps]
      parameters_loop.simps(2)[of "Suc n" toks cur ps]
    by (intro fuel_le_intros Suc)
qed

lemma statement_fuel_step:
  "(\<forall>toks cur. fuel_le (parse_statement n toks cur) (parse_statement (Suc n) toks cur))
 \<and> (\<forall>toks cur. fuel_le (parse_if_statement n toks cur) (parse_if_statement (Suc n) toks cur))
 \<and> (\<forall>toks cur. fuel_le (parse_while_statement n toks cur) (parse_while_statement (Suc n) toks cur))
 \<and> (\<forall>toks cur. fuel_le (parse_function_definition n toks cur)
                      (parse_function_definition (Suc n) toks cur))
 \<and> (\<forall>ts toks cur ss. fuel_le (parse_statement_list n ts toks cur ss)
                         (parse_statement_list (Suc n) ts toks cur ss))"
proof (induction n)
  case 0
  show ?case by simp
next
  case (Suc n)
  then have IH:
    "\<And>toks cur. fuel_le (parse_statement n toks cur) (parse_statement (Suc n) toks cur)"
    "\<And>toks cur. fuel_le (parse_if_statement n toks cur) (parse_if_statement (Suc n) toks cur)"
    "\<And>toks cur. fuel_le (parse_while_statement n toks cur) (parse_while_statement (Suc n) toks cur)"
    "\<And>toks cur. fuel_le (parse_function_definition n toks cur)
                      (parse_function_definition (Suc n) toks cur)"
    "\<And>ts toks cur ss. fuel_le (parse_statement_list n ts toks cur ss)
                         (parse_statement_list (Suc n) ts toks cur ss)"
    by simp_all
  show ?case
  proof (intro conjI allI)
    show "fuel_le (parse_statement (Suc n) toks cur) (parse_statement (Suc (Suc n)) toks cur)"
      for toks cur
      unfolding parse_statement.simps(2)[of n toks cur]
        parse_statement.simps(2)[of "Suc n" toks cur]
      by (intro fuel_le_intros IH simple_statement_fuel)
    show "fuel_le (parse_if_statement (Suc n) toks cur) (parse_if_statement (Suc (Suc n)) toks cur)"
      for toks cur
      unfolding parse_if_statement.simps(2)[of n toks cur]
        parse_if_statement.simps(2)[of "Suc n" toks cur]
      by (intro fuel_le_intros IH expression_fuel)
    show "fuel_le (parse_while_statement (Suc n) toks cur)
            (parse_while_statement (Suc (Suc n)) toks cur)" for toks cur
      unfolding parse_while_statement.simps(2)[of n toks cur]
        parse_while_statement.simps(2)[of "Suc n" toks cur]
      by (intro fuel_le_intros IH expression_fuel)
    show "fuel_le (parse_function_definition (Suc n) toks cur)
            (parse_function_definition (Suc (Suc n)) toks cur)" for toks cur
      unfolding parse_function_definition.simps(2)[of n toks cur]
        parse_function_definition.simps(2)[of "Suc n" toks cur]
      by (intro fuel_le_intros IH parameters_loop_fuel)
    show "fuel_le (parse_statement_list (Suc n) ts toks cur ss)
            (parse_statement_list (Suc (Suc n)) ts toks cur ss)" for ts toks cur ss
      unfolding parse_statement_list.simps(2)[of n ts toks cur ss]
        parse_statement_list.simps(2)[of "Suc n" ts toks cur ss]
      by (intro fuel_le_intros IH)
  qed
qed

lemma parse_loop_fuel:
  "fuel_le (parse_loop n toks cur ss) (parse_loop (Suc n) toks cur ss)"
proof (induction n arbitrary: cur ss)
  case 0
  show ?case by simp
next
  case (Suc n)
  have s: "fuel_le (parse_statement n toks c) (parse_statement (Suc n) toks c)" for c
    using statement_fuel_step[of n] by simp
  show ?case
    unfolding parse_loop.simps(2)[of n toks cur ss] parse_loop.simps(2)[of "Suc n" toks cur ss]
    by (intro fuel_le_intros Suc s)
qed

lemma parse_fuel_step: "fuel_le (parse n toks) (parse (Suc n) toks)"
  unfolding parse_def by (intro fuel_le_intros parse_loop_fuel)

lemma fuel_le_trans: "fuel_le a b \<Longrightarrow> fuel_le b c \<Longrightarrow> fuel_le a c"
  by (auto simp: fuel_le_def)

lemma parse_fuel: "fuel_le (parse n toks) (parse (n + k) toks)"
  by (induction k) (auto intro: fuel_le_trans parse_fuel_step)

text \<open>
  So the parser's answer on a token list does not depend on the fuel that was enough to
  get it.
\<close>

lemma parse_result_unique:
  assumes "parse n toks = Some r" and "parse m toks = Some r'"
  shows "r = r'"
proof -
  have "parse (n + m) toks = Some r" using parse_fuel[of n toks m] assms(1)
    by (simp add: fuel_le_def)
  moreover have "parse (m + n) toks = Some r'" using parse_fuel[of m toks n] assms(2)
    by (simp add: fuel_le_def)
  ultimately show ?thesis by (simp add: add.commute)
qed

section \<open>The shape of the trees that the parser builds\<close>

text \<open>What \<open>parse_expression\<close> returns is an expression node.\<close>

lemma pbind_Some_Inr:
  "pbind m f = Some (Inr y) \<longleftrightarrow> (\<exists>x. m = Some (Inr x) \<and> f x = Some (Inr y))"
  by (auto simp: pbind_def split: option.splits sum.splits)

lemma parse_expression_shape_step:
  "(\<forall>toks cur e c. parse_expression n toks cur = Some (Inr (e, c)) \<longrightarrow> is_expression e)
 \<and> (\<forall>toks cur e c. parse_concat n toks cur = Some (Inr (e, c)) \<longrightarrow> is_expression e)
 \<and> (\<forall>toks cur e0 e c. concat_loop n toks cur e0 = Some (Inr (e, c)) \<longrightarrow> is_expression e0
        \<longrightarrow> is_expression e)
 \<and> (\<forall>toks cur e c. parse_comparison n toks cur = Some (Inr (e, c)) \<longrightarrow> is_expression e)
 \<and> (\<forall>toks cur e0 e c. comparison_loop n toks cur e0 = Some (Inr (e, c)) \<longrightarrow> is_expression e0
        \<longrightarrow> is_expression e)
 \<and> (\<forall>toks cur e c. parse_additive n toks cur = Some (Inr (e, c)) \<longrightarrow> is_expression e)
 \<and> (\<forall>toks cur e0 e c. additive_loop n toks cur e0 = Some (Inr (e, c)) \<longrightarrow> is_expression e0
        \<longrightarrow> is_expression e)
 \<and> (\<forall>toks cur e c. parse_multiplicative n toks cur = Some (Inr (e, c)) \<longrightarrow> is_expression e)
 \<and> (\<forall>toks cur e0 e c. multiplicative_loop n toks cur e0 = Some (Inr (e, c)) \<longrightarrow> is_expression e0
        \<longrightarrow> is_expression e)
 \<and> (\<forall>toks cur e c. parse_primary n toks cur = Some (Inr (e, c)) \<longrightarrow> is_expression e)
 \<and> (\<forall>toks cur es c. parse_arguments n toks cur = Some (Inr (es, c))
        \<longrightarrow> list_all is_expression es)
 \<and> (\<forall>toks cur es0 es c. arguments_loop n toks cur es0 = Some (Inr (es, c))
        \<longrightarrow> list_all is_expression es0 \<longrightarrow> list_all is_expression es)"
proof (induction n)
  case 0
  show ?case by simp
next
  case (Suc n)
  note IH =
    Suc.IH[THEN conjunct1, rule_format]
    Suc.IH[THEN conjunct2, THEN conjunct1, rule_format]
    Suc.IH[THEN conjunct2, THEN conjunct2, THEN conjunct1, rule_format]
    Suc.IH[THEN conjunct2, THEN conjunct2, THEN conjunct2, THEN conjunct1, rule_format]
    Suc.IH[THEN conjunct2, THEN conjunct2, THEN conjunct2, THEN conjunct2, THEN conjunct1, rule_format]
    Suc.IH[THEN conjunct2, THEN conjunct2, THEN conjunct2, THEN conjunct2, THEN conjunct2, THEN conjunct1, rule_format]
    Suc.IH[THEN conjunct2, THEN conjunct2, THEN conjunct2, THEN conjunct2, THEN conjunct2, THEN conjunct2, THEN conjunct1, rule_format]
    Suc.IH[THEN conjunct2, THEN conjunct2, THEN conjunct2, THEN conjunct2, THEN conjunct2, THEN conjunct2, THEN conjunct2, THEN conjunct1, rule_format]
    Suc.IH[THEN conjunct2, THEN conjunct2, THEN conjunct2, THEN conjunct2, THEN conjunct2, THEN conjunct2, THEN conjunct2, THEN conjunct2, THEN conjunct1, rule_format]
    Suc.IH[THEN conjunct2, THEN conjunct2, THEN conjunct2, THEN conjunct2, THEN conjunct2, THEN conjunct2, THEN conjunct2, THEN conjunct2, THEN conjunct2, THEN conjunct1, rule_format]
    Suc.IH[THEN conjunct2, THEN conjunct2, THEN conjunct2, THEN conjunct2, THEN conjunct2, THEN conjunct2, THEN conjunct2, THEN conjunct2, THEN conjunct2, THEN conjunct2, THEN conjunct1, rule_format]
    Suc.IH[THEN conjunct2, THEN conjunct2, THEN conjunct2, THEN conjunct2, THEN conjunct2, THEN conjunct2, THEN conjunct2, THEN conjunct2, THEN conjunct2, THEN conjunct2, THEN conjunct2, rule_format]
  show ?case
  proof (intro conjI allI impI)
    show "is_expression e" if "parse_expression (Suc n) toks cur = Some (Inr (e, c))" for toks cur e c
      using that IH(2) by simp
    show "is_expression e" if "parse_concat (Suc n) toks cur = Some (Inr (e, c))" for toks cur e c
      using that by (auto simp: pbind_Some_Inr dest: IH(4) intro: IH(3))
    show "is_expression e"
      if "concat_loop (Suc n) toks cur e0 = Some (Inr (e, c))" "is_expression e0" for toks cur e0 e c
      using that
      by (auto simp: pbind_Some_Inr p_ok_def split: if_splits dest!: IH(4) elim!: IH(3))
    show "is_expression e" if "parse_comparison (Suc n) toks cur = Some (Inr (e, c))" for toks cur e c
      using that by (auto simp: pbind_Some_Inr dest: IH(6) intro: IH(5))
    show "is_expression e"
      if "comparison_loop (Suc n) toks cur e0 = Some (Inr (e, c))" "is_expression e0"
      for toks cur e0 e c
      using that
      by (auto simp: pbind_Some_Inr p_ok_def split: if_splits dest!: IH(6) elim!: IH(5))
    show "is_expression e" if "parse_additive (Suc n) toks cur = Some (Inr (e, c))" for toks cur e c
      using that by (auto simp: pbind_Some_Inr dest: IH(8) intro: IH(7))
    show "is_expression e"
      if "additive_loop (Suc n) toks cur e0 = Some (Inr (e, c))" "is_expression e0"
      for toks cur e0 e c
      using that
      by (auto simp: pbind_Some_Inr p_ok_def split: if_splits dest!: IH(8) elim!: IH(7))
    show "is_expression e" if "parse_multiplicative (Suc n) toks cur = Some (Inr (e, c))"
      for toks cur e c
      using that by (auto simp: pbind_Some_Inr dest: IH(10) intro: IH(9))
    show "is_expression e"
      if "multiplicative_loop (Suc n) toks cur e0 = Some (Inr (e, c))" "is_expression e0"
      for toks cur e0 e c
      using that
      by (auto simp: pbind_Some_Inr p_ok_def split: if_splits dest!: IH(10) elim!: IH(9))
    show "is_expression e" if "parse_primary (Suc n) toks cur = Some (Inr (e, c))" for toks cur e c
      using that
      by (auto simp: pbind_Some_Inr p_ok_def p_raise_def split: if_splits
          dest!: IH(11) IH(1))
    show "list_all is_expression es" if "parse_arguments (Suc n) toks cur = Some (Inr (es, c))"
      for toks cur es c
      using that
      by (auto simp: pbind_Some_Inr p_ok_def split: if_splits dest!: IH(1) elim!: IH(12))
    show "list_all is_expression es"
      if "arguments_loop (Suc n) toks cur es0 = Some (Inr (es, c))" "list_all is_expression es0"
      for toks cur es0 es c
      using that
      by (auto simp: pbind_Some_Inr p_ok_def split: if_splits dest!: IH(1) elim!: IH(12))
  qed
qed

lemma parse_expression_shape:
  "parse_expression n toks cur = Some (Inr (e, c)) \<Longrightarrow> is_expression e"
  by (rule parse_expression_shape_step[THEN conjunct1, rule_format])

text \<open>
  The statements that the parser builds: conditions, assigned values, returned values
  and statement expressions are expression nodes, and the branches and bodies are blocks
  of such statements.
\<close>

fun is_block :: "Node \<Rightarrow> bool" where
  "is_block (BlockNode statements) = True"
| "is_block node = False"

fun parsed_statement :: "Node \<Rightarrow> bool" where
  "parsed_statement (AssignmentNode name v) = is_expression v"
| "parsed_statement (IfNode condition then_branch else_branch) =
     (is_expression condition \<and> is_block then_branch \<and> parsed_statement then_branch
      \<and> (case else_branch of None \<Rightarrow> True | Some b \<Rightarrow> is_block b \<and> parsed_statement b))"
| "parsed_statement (WhileNode condition body) =
     (is_expression condition \<and> is_block body \<and> parsed_statement body)"
| "parsed_statement (FunctionNode name params body) = (is_block body \<and> parsed_statement body)"
| "parsed_statement (ReturnNode v) = (case v of None \<Rightarrow> True | Some e \<Rightarrow> is_expression e)"
| "parsed_statement (BlockNode statements) = list_all parsed_statement statements"
| "parsed_statement node = is_expression node"

lemma expression_is_parsed_statement: "is_expression e \<Longrightarrow> parsed_statement e"
  by (cases e) simp_all

lemma simple_statement_shape:
  "parse_expression_statement n toks cur = Some (Inr (s, c)) \<Longrightarrow> parsed_statement s"
  "parse_return_statement n toks cur = Some (Inr (s, c)) \<Longrightarrow> parsed_statement s"
  "parse_assignment n toks cur = Some (Inr (s, c)) \<Longrightarrow> parsed_statement s"
  by (auto simp: parse_expression_statement_def parse_return_statement_def parse_assignment_def
        pbind_Some_Inr p_ok_def split: if_splits
      dest!: parse_expression_shape intro: expression_is_parsed_statement)

lemma parse_statement_shape_step:
  "(\<forall>toks cur s c. parse_statement n toks cur = Some (Inr (s, c)) \<longrightarrow> parsed_statement s)
 \<and> (\<forall>toks cur s c. parse_if_statement n toks cur = Some (Inr (s, c)) \<longrightarrow> parsed_statement s)
 \<and> (\<forall>toks cur s c. parse_while_statement n toks cur = Some (Inr (s, c)) \<longrightarrow> parsed_statement s)
 \<and> (\<forall>toks cur s c. parse_function_definition n toks cur = Some (Inr (s, c))
        \<longrightarrow> parsed_statement s)
 \<and> (\<forall>ts toks cur ss0 ss c. parse_statement_list n ts toks cur ss0 = Some (Inr (ss, c))
        \<longrightarrow> list_all parsed_statement ss0 \<longrightarrow> list_all parsed_statement ss)"
proof (induction n)
  case 0
  show ?case by simp
next
  case (Suc n)
  note IH =
    Suc.IH[THEN conjunct1, rule_format]
    Suc.IH[THEN conjunct2, THEN conjunct1, rule_format]
    Suc.IH[THEN conjunct2, THEN conjunct2, THEN conjunct1, rule_format]
    Suc.IH[THEN conjunct2, THEN conjunct2, THEN conjunct2, THEN conjunct1, rule_format]
    Suc.IH[THEN conjunct2, THEN conjunct2, THEN conjunct2, THEN conjunct2, rule_format]
  note body = IH(5)[of _ _ _ "[]", simplified]
  show ?case
  proof (intro conjI allI impI)
    show "parsed_statement s" if "parse_statement (Suc n) toks cur = Some (Inr (s, c))"
      for toks cur s c
      using that
      by (auto simp: pbind_Some_Inr split: if_splits
          dest: IH(2) IH(3) IH(4) simple_statement_shape)
    show "parsed_statement s" if "parse_if_statement (Suc n) toks cur = Some (Inr (s, c))"
      for toks cur s c
      using that
      by (auto simp: pbind_Some_Inr p_ok_def split: if_splits
          dest!: parse_expression_shape dest: body)
    show "parsed_statement s" if "parse_while_statement (Suc n) toks cur = Some (Inr (s, c))"
      for toks cur s c
      using that
      by (auto simp: pbind_Some_Inr p_ok_def split: if_splits
          dest!: parse_expression_shape dest: body)
    show "parsed_statement s" if "parse_function_definition (Suc n) toks cur = Some (Inr (s, c))"
      for toks cur s c
      using that
      by (auto simp: pbind_Some_Inr p_ok_def split: if_splits dest: body)
    show "list_all parsed_statement ss"
      if "parse_statement_list (Suc n) ts toks cur ss0 = Some (Inr (ss, c))"
        "list_all parsed_statement ss0" for ts toks cur ss0 ss c
      using that
      by (auto simp: pbind_Some_Inr p_ok_def split: if_splits dest!: IH(1) elim!: IH(5))
  qed
qed

lemma parse_loop_shape:
  "parse_loop n toks cur ss0 = Some (Inr (ss, c)) \<Longrightarrow> list_all parsed_statement ss0 \<Longrightarrow>
     list_all parsed_statement ss"
proof (induction n arbitrary: cur ss0)
  case 0
  then show ?case by simp
next
  case (Suc n)
  have s: "parsed_statement s" if "parse_statement n toks cur' = Some (Inr (s, c'))" for cur' s c'
    using that by (rule parse_statement_shape_step[THEN conjunct1, rule_format])
  from Suc.prems show ?case
    by (auto simp: pbind_Some_Inr p_ok_def split: if_splits dest!: s elim!: Suc.IH)
qed

text \<open>
  Every tree that \<open>parse\<close> returns is a block of such statements; and in a block of such
  statements the values of the direct \<open>Return\<close> nodes are expressions.
\<close>

lemma parse_shape: "parse n toks = Some (Inr ast) \<Longrightarrow> is_block ast \<and> parsed_statement ast"
  by (auto simp: parse_def pbind_Some_Inr p_ok_def dest!: parse_loop_shape)

lemma parsed_direct_return_values:
  "list_all parsed_statement statements \<Longrightarrow>
     list_all is_expression (direct_return_values statements)"
proof (induction statements)
  case Nil
  show ?case by simp
next
  case (Cons s statements)
  then show ?case
    by (cases s; (cases "case s of ReturnNode z \<Rightarrow> z | _ \<Rightarrow> None")?; simp)
qed

section \<open>Running the three stages on a program\<close>

text \<open>The equations that the simplifier needs to run each stage on a given input.\<close>

lemmas lexer_eval =
  lexer_tokens_def new_Lexer_def tokenize_def tokenize_loop.simps scan_token_def
  identifier_tok_def identifier_loop.simps number_tok_def digit_loop.simps
  string_tok_def string_loop.simps comment_loop.simps one_or_two_def unexpected_def
  add_token_def advance_def peek_def peek_next_def is_at_end_def slice_def
  isspace_def isalpha_def isdigit_def isdecimal_def isalnum_def keyword_table_def
  py_int_def py_float_def Let_def

lemmas parser_eval =
  parse_def pbind_def p_ok_def p_raise_def peek_tok_def previous_tok_def tokens_at_end_def
  advance_tok_def check_tok_def match_tok.simps consume_def peek_next_tok_def
  parse_expression_statement_def parse_return_statement_def parse_assignment_def
  eval_nat_numeral Let_def

lemmas analyzer_eval =
  analyze_def new_SemanticAnalyzer_def function_scope_def ebind_def declare_variable_def
  declare_function_def enclosing_def declared_in_def Let_def

section \<open>The lexer on particular inputs\<close>

text \<open>
  Claim C2 (token positions). The claim says that every token carries the exact line and
  column of its first character, also after a string literal with embedded newlines. On
  the seven characters \<open>'a\<newline>b' x\<close> (a quoted string holding a newline, a blank, the name
  \<open>x\<close>) the lexer gives the string token line 2 and column -1, although it starts at line 1,
  column 1, and gives \<open>x\<close> column 5, although \<open>x\<close> is the fourth character of line 2.
\<close>

theorem lexer_position_after_multiline_string:
  "lexer_tokens [CHR 0x27, CHR ''a'', CHR 0x0A, CHR ''b'', CHR 0x27, CHR '' '', CHR ''x'']
     = Inr [Token STRING (PyStr [CHR ''a'', CHR 0x0A, CHR ''b'']) 2 (- 1),
            Token IDENTIFIER (PyStr ''x'') 2 5,
            Token EOF PyNone 2 6]
   \<and> exact_position
         [CHR 0x27, CHR ''a'', CHR 0x0A, CHR ''b'', CHR 0x27, CHR '' '', CHR ''x''] 0 = (1, 1)
   \<and> exact_position
         [CHR 0x27, CHR ''a'', CHR 0x0A, CHR ''b'', CHR 0x27, CHR '' '', CHR ''x''] 6 = (2, 4)"
  by code_simp

text \<open>
  Claim C8 (lexical faults never abort). The one-character input made of the superscript
  two (code point 178) is a digit for \<open>isdigit\<close>, so \<open>scan_token\<close> enters \<open>number\<close>, and
  \<open>int\<close> then raises \<open>ValueError\<close>: the lexer returns no token list and prints no diagnostic.
\<close>

theorem lexer_aborts_on_superscript_digit:
  "new_Lexer [CHR 0xB2] = Inl (ValueError [CHR 0xB2])"
  by code_simp
section \<open>The parser's claims\<close>

text \<open>
  \<open>parse_return_statement\<close> starts from \<open>value = None\<close> and calls \<open>parse_expression\<close> unless
  the token after \<open>return\<close> is \<open>end\<close> or \<open>else\<close>; before those two tokens the statement is
  parsed, whatever the fuel, into a \<open>Return\<close> node with no value, and the cursor stays on
  the \<open>end\<close> or \<open>else\<close>.
\<close>

lemma return_before_end_or_else_has_no_value:
  assumes "cur + 1 < length toks" and "ttype (toks ! cur) = RETURN"
    and "ttype (toks ! (cur + 1)) = END \<or> ttype (toks ! (cur + 1)) = ELSE"
  shows "parse_statement (Suc n) toks cur = Some (Inr (ReturnNode None, cur + 1))"
proof -
  have r: "parse_return_statement n toks (cur + 1) = Some (Inr (ReturnNode None, cur + 1))"
    using assms(1,3)
    by (auto simp: parse_return_statement_def check_tok_at match_tok_single p_ok_def)
  from assms(1) have c: "cur < length toks" by simp
  show ?thesis
    using r assms(2) by (simp add: match_tok_single[OF c] p_ok_def)
qed

text \<open>On the tokens of \<open>function f() return end\<close>, at the \<open>return\<close> (cursor 4).\<close>

lemma return_before_end_or_else_has_no_value_example:
  "parse_statement (Suc 0)
     [Token FUNCTION (PyStr ''function'') 1 1, Token IDENTIFIER (PyStr ''f'') 1 10,
      Token LPAREN (PyStr ''('') 1 11, Token RPAREN (PyStr '')'') 1 12,
      Token RETURN (PyStr ''return'') 1 14, Token END (PyStr ''end'') 1 21,
      Token EOF PyNone 1 24] 4
   = Some (Inr (ReturnNode None, 5))"
  using return_before_end_or_else_has_no_value
    [of 4 "[Token FUNCTION (PyStr ''function'') 1 1, Token IDENTIFIER (PyStr ''f'') 1 10,
      Token LPAREN (PyStr ''('') 1 11, Token RPAREN (PyStr '')'') 1 12,
      Token RETURN (PyStr ''return'') 1 14, Token END (PyStr ''end'') 1 21,
      Token EOF PyNone 1 24]" 0]
  by simp

text \<open>
  Claim C9 (a \<open>return\<close> without a value). The grammar of syntaxtree.py has
  \<open><return_stmt> ::= "return" [<expr>]\<close>, and \<open>parse_return_statement\<close> provides for the
  missing expression (\<open>value = None\<close>) and for the optional \<open>;\<close>. But its guard looks for
  \<open>end\<close> and \<open>else\<close> only, and \<open>check\<close> is false at the end of the input: where \<open>return\<close> is
  the last token before the end of the input, and where it is followed by \<open>;\<close>, the parser
  calls \<open>parse_expression\<close>, which raises. On the programs \<open>return\<close> and
  \<open>function f() return; end\<close> the parser raises \<open>ParseError\<close> at the token after \<open>return\<close>
  instead of producing a \<open>Return\<close> node with no value.
\<close>

theorem return_at_end_of_input_or_before_semicolon_is_rejected:
  "lexer_tokens ''return'' = Inr
     [Token RETURN (PyStr ''return'') 1 1, Token EOF PyNone 1 7]
   \<and> parse 30
     [Token RETURN (PyStr ''return'') 1 1, Token EOF PyNone 1 7]
     = Some (Inl (ParseError ''Unexpected token'' (Token EOF PyNone 1 7)))
   \<and> lexer_tokens ''function f() return; end'' = Inr
     [Token FUNCTION (PyStr ''function'') 1 1, Token IDENTIFIER (PyStr ''f'') 1 10,
      Token LPAREN (PyStr ''('') 1 11, Token RPAREN (PyStr '')'') 1 12,
      Token RETURN (PyStr ''return'') 1 14, Token SEMICOLON (PyStr '';'') 1 20,
      Token END (PyStr ''end'') 1 22, Token EOF PyNone 1 25]
   \<and> parse 30
     [Token FUNCTION (PyStr ''function'') 1 1, Token IDENTIFIER (PyStr ''f'') 1 10,
      Token LPAREN (PyStr ''('') 1 11, Token RPAREN (PyStr '')'') 1 12,
      Token RETURN (PyStr ''return'') 1 14, Token SEMICOLON (PyStr '';'') 1 20,
      Token END (PyStr ''end'') 1 22, Token EOF PyNone 1 25]
     = Some (Inl (ParseError ''Unexpected token'' (Token SEMICOLON (PyStr '';'') 1 20)))"
proof (intro conjI)
  show "lexer_tokens ''return'' = Inr
     [Token RETURN (PyStr ''return'') 1 1, Token EOF PyNone 1 7]"
    by (simp add: lexer_eval)
  show "parse 30
     [Token RETURN (PyStr ''return'') 1 1, Token EOF PyNone 1 7]
     = Some (Inl (ParseError ''Unexpected token'' (Token EOF PyNone 1 7)))"
    by (simp add: parser_eval)
  show "lexer_tokens ''function f() return; end'' = Inr
     [Token FUNCTION (PyStr ''function'') 1 1, Token IDENTIFIER (PyStr ''f'') 1 10,
      Token LPAREN (PyStr ''('') 1 11, Token RPAREN (PyStr '')'') 1 12,
      Token RETURN (PyStr ''return'') 1 14, Token SEMICOLON (PyStr '';'') 1 20,
      Token END (PyStr ''end'') 1 22, Token EOF PyNone 1 25]"
    by (simp add: lexer_eval)
  show "parse 30
     [Token FUNCTION (PyStr ''function'') 1 1, Token IDENTIFIER (PyStr ''f'') 1 10,
      Token LPAREN (PyStr ''('') 1 11, Token RPAREN (PyStr '')'') 1 12,
      Token RETURN (PyStr ''return'') 1 14, Token SEMICOLON (PyStr '';'') 1 20,
      Token END (PyStr ''end'') 1 22, Token EOF PyNone 1 25]
     = Some (Inl (ParseError ''Unexpected token'' (Token SEMICOLON (PyStr '';'') 1 20)))"
    by (simp add: parser_eval)
qed

text \<open>
  Claim C3 (the assignment node), as the parser has it. An \<open>AssignmentNode\<close> has two
  fields, the target's name and the value, and no flag for \<open>local\<close>. Where an identifier
  \<open>x\<close> stands at cursor \<open>j\<close>, followed by \<open>=\<close> and by an expression that parses to \<open>v\<close>,
  the statement that starts at \<open>j\<close> is parsed into \<open>AssignmentNode x v\<close>, and so is the
  statement that starts at a \<open>local\<close> before \<open>j\<close>: the same node, at the same final cursor.
\<close>

theorem assignment_node_records_name_and_value_only:
  assumes "parse_expression n toks (j + 2) = Some (Inr (v, c))" and "c < length toks"
    and "j + 1 < length toks" and "ttype (toks ! j) = IDENTIFIER"
    and "tvalue (toks ! j) = PyStr x" and "ttype (toks ! (j + 1)) = ASSIGN"
  shows "parse_statement (Suc n) toks j =
           Some (Inr (AssignmentNode x v, if ttype (toks ! c) = SEMICOLON then c + 1 else c))
       \<and> (0 < j \<and> ttype (toks ! (j - 1)) = LOCAL \<longrightarrow>
            parse_statement (Suc n) toks (j - 1) =
              Some (Inr (AssignmentNode x v, if ttype (toks ! c) = SEMICOLON then c + 1 else c)))"
proof (intro conjI impI)
  from assms(3) have j: "j < length toks" by simp
  have nx: "peek_next_tok toks j = toks ! (j + 1)"
    using assms(3) by (simp add: peek_next_tok_def)
  show "parse_statement (Suc n) toks j =
           Some (Inr (AssignmentNode x v, if ttype (toks ! c) = SEMICOLON then c + 1 else c))"
    using parse_assignment_at[OF assms] assms(4,6)
    by (simp add: match_tok_single[OF j] check_tok_at[OF j] nx p_ok_def)
next
  assume l: "0 < j \<and> ttype (toks ! (j - 1)) = LOCAL"
  then obtain i where i: "j = Suc i" by (cases j) auto
  with l assms(3) have i1: "i < length toks" "ttype (toks ! i) = LOCAL" by auto
  have "parse_statement (Suc n) toks i =
           Some (Inr (AssignmentNode x v, if ttype (toks ! c) = SEMICOLON then c + 1 else c))"
    using parse_assignment_at[OF assms] i1(2)
    by (simp add: match_tok_single[OF i1(1)] i p_ok_def)
  then show "parse_statement (Suc n) toks (j - 1) =
           Some (Inr (AssignmentNode x v, if ttype (toks ! c) = SEMICOLON then c + 1 else c))"
    using i by simp
qed

text \<open>On the tokens of \<open>local x = 1\<close>, with the identifier at cursor 1.\<close>

theorem assignment_node_records_name_and_value_only_witness:
  "parse_statement (Suc 6)
     [Token LOCAL (PyStr ''local'') 1 1, Token IDENTIFIER (PyStr ''x'') 1 7,
      Token ASSIGN (PyStr ''='') 1 9, Token NUMBER (PyInt 1) 1 11, Token EOF PyNone 1 12] 1
   = Some (Inr (AssignmentNode ''x'' (NumberNode (PyInt 1)), 4))
   \<and> parse_statement (Suc 6)
     [Token LOCAL (PyStr ''local'') 1 1, Token IDENTIFIER (PyStr ''x'') 1 7,
      Token ASSIGN (PyStr ''='') 1 9, Token NUMBER (PyInt 1) 1 11, Token EOF PyNone 1 12] 0
   = Some (Inr (AssignmentNode ''x'' (NumberNode (PyInt 1)), 4))"
proof -
  let ?toks = "[Token LOCAL (PyStr ''local'') 1 1, Token IDENTIFIER (PyStr ''x'') 1 7,
                  Token ASSIGN (PyStr ''='') 1 9, Token NUMBER (PyInt 1) 1 11,
                  Token EOF PyNone 1 12]"
  have e: "parse_expression 6 ?toks (1 + 2) = Some (Inr (NumberNode (PyInt 1), 4))"
    by (simp add: parser_eval)
  from assignment_node_records_name_and_value_only [OF e, of "''x''"]
  show ?thesis by simp
qed

text \<open>
  Claim C3 as stated fails: the programs \<open>local x = 1\<close> and \<open>x = 1\<close> are parsed into the
  same tree, so the nodes of the two assignments cannot be told apart.
\<close>

theorem local_and_plain_assignment_parse_alike:
  "lexer_tokens ''local x = 1'' = Inr
     [Token LOCAL (PyStr ''local'') 1 1, Token IDENTIFIER (PyStr ''x'') 1 7,
      Token ASSIGN (PyStr ''='') 1 9, Token NUMBER (PyInt 1) 1 11, Token EOF PyNone 1 12]
   \<and> lexer_tokens ''x = 1'' = Inr
     [Token IDENTIFIER (PyStr ''x'') 1 1, Token ASSIGN (PyStr ''='') 1 3,
      Token NUMBER (PyInt 1) 1 5, Token EOF PyNone 1 6]
   \<and> parse 30
     [Token LOCAL (PyStr ''local'') 1 1, Token IDENTIFIER (PyStr ''x'') 1 7,
      Token ASSIGN (PyStr ''='') 1 9, Token NUMBER (PyInt 1) 1 11, Token EOF PyNone 1 12]
     = Some (Inr (BlockNode [AssignmentNode ''x'' (NumberNode (PyInt 1))]))
   \<and> parse 30
     [Token IDENTIFIER (PyStr ''x'') 1 1, Token ASSIGN (PyStr ''='') 1 3,
      Token NUMBER (PyInt 1) 1 5, Token EOF PyNone 1 6]
     = Some (Inr (BlockNode [AssignmentNode ''x'' (NumberNode (PyInt 1))]))"
proof (intro conjI)
  show "lexer_tokens ''local x = 1'' = Inr
     [Token LOCAL (PyStr ''local'') 1 1, Token IDENTIFIER (PyStr ''x'') 1 7,
      Token ASSIGN (PyStr ''='') 1 9, Token NUMBER (PyInt 1) 1 11, Token EOF PyNone 1 12]"
    by (simp add: lexer_eval)
  show "lexer_tokens ''x = 1'' = Inr
     [Token IDENTIFIER (PyStr ''x'') 1 1, Token ASSIGN (PyStr ''='') 1 3,
      Token NUMBER (PyInt 1) 1 5, Token EOF PyNone 1 6]"
    by (simp add: lexer_eval)
  show "parse 30
     [Token LOCAL (PyStr ''local'') 1 1, Token IDENTIFIER (PyStr ''x'') 1 7,
      Token ASSIGN (PyStr ''='') 1 9, Token NUMBER (PyInt 1) 1 11, Token EOF PyNone 1 12]
     = Some (Inr (BlockNode [AssignmentNode ''x'' (NumberNode (PyInt 1))]))"
    by (simp add: parser_eval)
  show "parse 30
     [Token IDENTIFIER (PyStr ''x'') 1 1, Token ASSIGN (PyStr ''='') 1 3,
      Token NUMBER (PyInt 1) 1 5, Token EOF PyNone 1 6]
     = Some (Inr (BlockNode [AssignmentNode ''x'' (NumberNode (PyInt 1))]))"
    by (simp add: parser_eval)
qed

section \<open>The analyzer's claims\<close>




text \<open>
  Claim C4 (assignment). Once the right-hand side has been analyzed, with type
  \<open>expr_type\<close>: if no table of the chain declares the target, the assignment declares it
  in the current table, with that type, and changes nothing else; if some table of the
  chain declares it, the analyzer is left as it is, so the recorded type stays, whatever
  \<open>expr_type\<close> is. Both ways the assignment's type is \<open>expr_type\<close>. (A right-hand side that
  is an expression changes nothing itself.)
\<close>

theorem assignment_declares_once:
  assumes "analyze_node v A = Inr (expr_type, A1)"
  shows "(\<not> list_ex (declared_in x) (scopes (symbol_table A1)) \<longrightarrow>
            (\<exists>A2. analyze_node (AssignmentNode x v) A = Inr (expr_type, A2)
               \<and> variables (symbol_table A2) = variables (symbol_table A1) @ [(x, expr_type)]
               \<and> functions_tbl (symbol_table A2) = functions_tbl (symbol_table A1)
               \<and> parent (symbol_table A2) = parent (symbol_table A1)
               \<and> current_function A2 = current_function A1
               \<and> get_variable (symbol_table A2) x = Inr expr_type))
       \<and> (list_ex (declared_in x) (scopes (symbol_table A1)) \<longrightarrow>
            analyze_node (AssignmentNode x v) A = Inr (expr_type, A1))
       \<and> (is_expression v \<longrightarrow> A1 = A)"
proof (intro conjI impI)
  assume n: "\<not> list_ex (declared_in x) (scopes (symbol_table A1))"
  let ?tbl = "SymbolTable (variables (symbol_table A1) @ [(x, expr_type)])
                (functions_tbl (symbol_table A1)) (parent (symbol_table A1))"
  have u: "get_variable (symbol_table A1) x = Inl (UndefinedVariable x)"
    using n by (simp add: get_variable_undefined_iff)
  have l: "map_of (variables (symbol_table A1)) x = None" using scopes_head[OF n] .
  then have d: "declare_variable (symbol_table A1) x expr_type = Inr ?tbl"
    by (simp add: declare_variable_def)
  have "analyze_node (AssignmentNode x v) A = Inr (expr_type, A1\<lparr>symbol_table := ?tbl\<rparr>)"
    using assms u d by (simp add: ebind_def)
  moreover have "get_variable ?tbl x = Inr expr_type"
    using l by (simp add: map_of_append map_add_def)
  ultimately show "\<exists>A2. analyze_node (AssignmentNode x v) A = Inr (expr_type, A2)
      \<and> variables (symbol_table A2) = variables (symbol_table A1) @ [(x, expr_type)]
      \<and> functions_tbl (symbol_table A2) = functions_tbl (symbol_table A1)
      \<and> parent (symbol_table A2) = parent (symbol_table A1)
      \<and> current_function A2 = current_function A1
      \<and> get_variable (symbol_table A2) x = Inr expr_type"
    by simp
next
  assume "list_ex (declared_in x) (scopes (symbol_table A1))"
  then obtain t0 where "get_variable (symbol_table A1) x = Inr t0"
    using get_variable_defined_iff by blast
  then show "analyze_node (AssignmentNode x v) A = Inr (expr_type, A1)"
    using assms by (simp add: ebind_def)
next
  assume "is_expression v"
  then show "A1 = A" using expression_state assms by blast
qed

text \<open>With \<open>x\<close> declared a number, \<open>x = "a"\<close> has type string and \<open>x\<close> stays a number.\<close>

theorem assignment_declares_once_witness:
  "analyze_node (AssignmentNode ''x'' (StringNode (PyStr ''a'')))
     \<lparr>symbol_table = SymbolTable [(''x'', Some TNumber)] [] None, current_function = None\<rparr>
   = Inr (Some TString,
          \<lparr>symbol_table = SymbolTable [(''x'', Some TNumber)] [] None, current_function = None\<rparr>)
   \<and> get_variable (SymbolTable [(''x'', Some TNumber)] [] None) ''x'' = Inr (Some TNumber)"
proof -
  let ?A = "\<lparr>symbol_table = SymbolTable [(''x'', Some TNumber)] [] None,
             current_function = None\<rparr>"
  have v: "analyze_node (StringNode (PyStr ''a'')) ?A = Inr (Some TString, ?A)" by simp
  have d: "list_ex (declared_in ''x'') (scopes (symbol_table ?A))"
    by (simp add: declared_in_def)
  from assignment_declares_once [OF v, of "''x''"] d
  show ?thesis by simp
qed

text \<open>
  Claim C5 (binary operations). Once both operands have been analyzed, the left one
  first: \<open>..\<close> gives string; \<open>+ - * /\<close> give number when both operand types are number and
  otherwise raise the error that names the two types and the operator's line and column;
  every other operator gives boolean.
\<close>

theorem binary_op_types:
  assumes "analyze_node left A = Inr (left_type, A1)"
    and "analyze_node right A1 = Inr (right_type, A2)"
  shows "(ttype op = DOTDOT \<longrightarrow>
            analyze_node (BinaryOpNode left op right) A = Inr (Some TString, A2))
       \<and> (ttype op \<in> {PLUS, MINUS, STAR, SLASH} \<longrightarrow>
            analyze_node (BinaryOpNode left op right) A =
              (if left_type = Some TNumber \<and> right_type = Some TNumber
               then Inr (Some TNumber, A2)
               else Inl (ArithmeticTypes left_type right_type (tline op) (tcolumn op))))
       \<and> (ttype op \<notin> {DOTDOT, PLUS, MINUS, STAR, SLASH} \<longrightarrow>
            analyze_node (BinaryOpNode left op right) A = Inr (Some TBoolean, A2))"
  using assms by (auto simp: ebind_def)

text \<open>On \<open>1 .. "a"\<close> and on \<open>1 + "a"\<close>, the operator at line 1, column 13.\<close>

theorem binary_op_types_witness:
  "analyze_node
     (BinaryOpNode (NumberNode (PyInt 1)) (Token DOTDOT (PyStr ''..'') 1 3)
        (StringNode (PyStr ''a'')))
     new_SemanticAnalyzer
   = Inr (Some TString, new_SemanticAnalyzer)
   \<and> analyze_node
     (BinaryOpNode (NumberNode (PyInt 1)) (Token PLUS (PyStr ''+'') 1 13)
        (StringNode (PyStr ''a'')))
     new_SemanticAnalyzer
   = Inl (ArithmeticTypes (Some TNumber) (Some TString) 1 13)"
proof -
  have l: "analyze_node (NumberNode (PyInt 1)) new_SemanticAnalyzer
             = Inr (Some TNumber, new_SemanticAnalyzer)" by simp
  have r: "analyze_node (StringNode (PyStr ''a'')) new_SemanticAnalyzer
             = Inr (Some TString, new_SemanticAnalyzer)" by simp
  from binary_op_types [OF l r, of "Token DOTDOT (PyStr ''..'') 1 3"]
       binary_op_types [OF l r, of "Token PLUS (PyStr ''+'') 1 13"]
  show ?thesis by simp
qed

text \<open>
  Claim C6 (calls). Let \<open>T\<close> be the innermost table of the current scope chain that
  declares the callee, and \<open>(param_count, param_types, return_type)\<close> the entry of the
  callee in \<open>T\<close>. Then the call raises the arity error with \<open>param_count\<close> and the number
  of arguments exactly when the two differ; when they are equal the arguments are
  analyzed in order, an exception of theirs is the call's, and otherwise the call's type
  is the registered return type, or \<open>any\<close> when none is registered. The parameter types
  play no part.
\<close>

theorem call_arity_and_type:
  assumes "List.find (declares_function name) (scopes (symbol_table A)) = Some T"
    and "map_of (functions_tbl T) name = Some (param_count, param_types, return_type)"
  shows "(analyze_node (FunctionCallNode name arguments) A
            = Inl (ArityMismatch name param_count (length arguments))
          \<longleftrightarrow> length arguments \<noteq> param_count)
       \<and> (length arguments = param_count \<longrightarrow>
            analyze_node (FunctionCallNode name arguments) A =
              (case analyze_each arguments A of
                 Inl e \<Rightarrow> Inl e
               | Inr A1 \<Rightarrow> Inr (Some (case return_type of Some t \<Rightarrow> t | None \<Rightarrow> TAny), A1)))"
proof (intro conjI impI)
  have g: "get_function (symbol_table A) name = Inr (param_count, param_types, return_type)"
    using get_function_innermost[OF assms] .
  show "(analyze_node (FunctionCallNode name arguments) A
            = Inl (ArityMismatch name param_count (length arguments)))
          \<longleftrightarrow> length arguments \<noteq> param_count"
  proof
    assume a: "analyze_node (FunctionCallNode name arguments) A
            = Inl (ArityMismatch name param_count (length arguments))"
    show "length arguments \<noteq> param_count"
      using arity_mismatch_counts_differ(1)[of "FunctionCallNode name arguments" A] a
      by auto
  next
    assume "length arguments \<noteq> param_count"
    then show "analyze_node (FunctionCallNode name arguments) A
            = Inl (ArityMismatch name param_count (length arguments))"
      using g by (simp add: ebind_def)
  qed
  assume "length arguments = param_count"
  then show "analyze_node (FunctionCallNode name arguments) A =
              (case analyze_each arguments A of
                 Inl e \<Rightarrow> Inl e
               | Inr A1 \<Rightarrow> Inr (Some (case return_type of Some t \<Rightarrow> t | None \<Rightarrow> TAny), A1))"
    using g by (auto simp: ebind_def split: sum.splits option.splits)
qed

text \<open>
  In the body of a function \<open>g(a)\<close>, two tables away from the global table that declares
  \<open>print\<close> and \<open>f\<close> (the latter as by \<open>function f(a, b) return a end\<close>): the call \<open>f(1)\<close>
  raises, and the call \<open>print(a)\<close> has the type \<open>any\<close>. Then the claim's program through the
  three stages, and the same call made from the body of another function.
\<close>

theorem call_arity_and_type_witness:
  "analyze_node (FunctionCallNode ''f'' [NumberNode (PyInt 1)])
     \<lparr>symbol_table =
        SymbolTable [] []
          (Some (SymbolTable [(''a'', Some TAny)] []
             (Some (SymbolTable []
                      [(''print'', (1, [TAny], None)),
                       (''f'', (2, [TAny, TAny], Some TAny))] None)))),
      current_function = Some ''g''\<rparr>
   = Inl (ArityMismatch ''f'' 2 1)
   \<and> analyze_node (FunctionCallNode ''print'' [VariableNode ''a''])
     \<lparr>symbol_table =
        SymbolTable [] []
          (Some (SymbolTable [(''a'', Some TAny)] []
             (Some (SymbolTable []
                      [(''print'', (1, [TAny], None)),
                       (''f'', (2, [TAny, TAny], Some TAny))] None)))),
      current_function = Some ''g''\<rparr>
   = Inr (Some TAny,
     \<lparr>symbol_table =
        SymbolTable [] []
          (Some (SymbolTable [(''a'', Some TAny)] []
             (Some (SymbolTable []
                      [(''print'', (1, [TAny], None)),
                       (''f'', (2, [TAny, TAny], Some TAny))] None)))),
      current_function = Some ''g''\<rparr>)
   \<and> compile 30 ''function f(a, b) return a end f(1)'' = Some (AnalyzerRaised (ArityMismatch ''f'' 2 1))
   \<and> compile 30 ''function f(a, b) return a end function g() f(1) end'' = Some (AnalyzerRaised (ArityMismatch ''f'' 2 1))"
proof (intro conjI)
  let ?G = "SymbolTable [] [(''print'', (1, [TAny], None)),
                            (''f'', (2, [TAny, TAny], Some TAny))] None"
  let ?A = "\<lparr>symbol_table =
               SymbolTable [] [] (Some (SymbolTable [(''a'', Some TAny)] [] (Some ?G))),
             current_function = Some ''g''\<rparr>"
  have f: "List.find (declares_function ''f'') (scopes (symbol_table ?A)) = Some ?G"
    by (simp add: declares_function_def)
  have fi: "map_of (functions_tbl ?G) ''f'' = Some (2, [TAny, TAny], Some TAny)" by simp
  from call_arity_and_type [OF f fi, of "[NumberNode (PyInt 1)]"]
  show "analyze_node (FunctionCallNode ''f'' [NumberNode (PyInt 1)]) ?A
          = Inl (ArityMismatch ''f'' 2 1)"
    by simp
  have pr: "List.find (declares_function ''print'') (scopes (symbol_table ?A)) = Some ?G"
    by (simp add: declares_function_def)
  have pi: "map_of (functions_tbl ?G) ''print'' = Some (1, [TAny], None)" by simp
  from call_arity_and_type [OF pr pi, of "[VariableNode ''a'']"]
  show "analyze_node (FunctionCallNode ''print'' [VariableNode ''a'']) ?A
          = Inr (Some TAny, ?A)"
    by (simp add: ebind_def)
  have l: "lexer_tokens ''function f(a, b) return a end f(1)'' = Inr
     [Token FUNCTION (PyStr ''function'') 1 1, Token IDENTIFIER (PyStr ''f'') 1 10,
      Token LPAREN (PyStr ''('') 1 11, Token IDENTIFIER (PyStr ''a'') 1 12,
      Token COMMA (PyStr '','') 1 13, Token IDENTIFIER (PyStr ''b'') 1 15,
      Token RPAREN (PyStr '')'') 1 16, Token RETURN (PyStr ''return'') 1 18,
      Token IDENTIFIER (PyStr ''a'') 1 25, Token END (PyStr ''end'') 1 27,
      Token IDENTIFIER (PyStr ''f'') 1 31, Token LPAREN (PyStr ''('') 1 32,
      Token NUMBER (PyInt 1) 1 33, Token RPAREN (PyStr '')'') 1 34, Token EOF PyNone 1 35]"
    by (simp add: lexer_eval)
  have p: "parse 30
     [Token FUNCTION (PyStr ''function'') 1 1, Token IDENTIFIER (PyStr ''f'') 1 10,
      Token LPAREN (PyStr ''('') 1 11, Token IDENTIFIER (PyStr ''a'') 1 12,
      Token COMMA (PyStr '','') 1 13, Token IDENTIFIER (PyStr ''b'') 1 15,
      Token RPAREN (PyStr '')'') 1 16, Token RETURN (PyStr ''return'') 1 18,
      Token IDENTIFIER (PyStr ''a'') 1 25, Token END (PyStr ''end'') 1 27,
      Token IDENTIFIER (PyStr ''f'') 1 31, Token LPAREN (PyStr ''('') 1 32,
      Token NUMBER (PyInt 1) 1 33, Token RPAREN (PyStr '')'') 1 34, Token EOF PyNone 1 35]
     = Some (Inr (BlockNode
         [FunctionNode ''f'' [''a'', ''b'']
            (BlockNode [ReturnNode (Some (VariableNode ''a''))]),
          FunctionCallNode ''f'' [NumberNode (PyInt 1)]]))"
    by (simp add: parser_eval)
  have a: "analyze (BlockNode
         [FunctionNode ''f'' [''a'', ''b'']
            (BlockNode [ReturnNode (Some (VariableNode ''a''))]),
          FunctionCallNode ''f'' [NumberNode (PyInt 1)]])
     = Inl (ArityMismatch ''f'' 2 1)"
    by (simp add: analyzer_eval)
  show "compile 30 ''function f(a, b) return a end f(1)'' = Some (AnalyzerRaised (ArityMismatch ''f'' 2 1))"
    unfolding compile_def l by (simp add: p a)
  have l2: "lexer_tokens ''function f(a, b) return a end function g() f(1) end'' = Inr
     [Token FUNCTION (PyStr ''function'') 1 1, Token IDENTIFIER (PyStr ''f'') 1 10,
      Token LPAREN (PyStr ''('') 1 11, Token IDENTIFIER (PyStr ''a'') 1 12,
      Token COMMA (PyStr '','') 1 13, Token IDENTIFIER (PyStr ''b'') 1 15,
      Token RPAREN (PyStr '')'') 1 16, Token RETURN (PyStr ''return'') 1 18,
      Token IDENTIFIER (PyStr ''a'') 1 25, Token END (PyStr ''end'') 1 27,
      Token FUNCTION (PyStr ''function'') 1 31, Token IDENTIFIER (PyStr ''g'') 1 40,
      Token LPAREN (PyStr ''('') 1 41, Token RPAREN (PyStr '')'') 1 42,
      Token IDENTIFIER (PyStr ''f'') 1 44, Token LPAREN (PyStr ''('') 1 45,
      Token NUMBER (PyInt 1) 1 46, Token RPAREN (PyStr '')'') 1 47,
      Token END (PyStr ''end'') 1 49, Token EOF PyNone 1 52]"
    by (simp add: lexer_eval)
  have p2: "parse 30
     [Token FUNCTION (PyStr ''function'') 1 1, Token IDENTIFIER (PyStr ''f'') 1 10,
      Token LPAREN (PyStr ''('') 1 11, Token IDENTIFIER (PyStr ''a'') 1 12,
      Token COMMA (PyStr '','') 1 13, Token IDENTIFIER (PyStr ''b'') 1 15,
      Token RPAREN (PyStr '')'') 1 16, Token RETURN (PyStr ''return'') 1 18,
      Token IDENTIFIER (PyStr ''a'') 1 25, Token END (PyStr ''end'') 1 27,
      Token FUNCTION (PyStr ''function'') 1 31, Token IDENTIFIER (PyStr ''g'') 1 40,
      Token LPAREN (PyStr ''('') 1 41, Token RPAREN (PyStr '')'') 1 42,
      Token IDENTIFIER (PyStr ''f'') 1 44, Token LPAREN (PyStr ''('') 1 45,
      Token NUMBER (PyInt 1) 1 46, Token RPAREN (PyStr '')'') 1 47,
      Token END (PyStr ''end'') 1 49, Token EOF PyNone 1 52]
     = Some (Inr (BlockNode
         [FunctionNode ''f'' [''a'', ''b'']
            (BlockNode [ReturnNode (Some (VariableNode ''a''))]),
          FunctionNode ''g'' []
            (BlockNode [FunctionCallNode ''f'' [NumberNode (PyInt 1)]])]))"
    by (simp add: parser_eval)
  have a2: "analyze (BlockNode
         [FunctionNode ''f'' [''a'', ''b'']
            (BlockNode [ReturnNode (Some (VariableNode ''a''))]),
          FunctionNode ''g'' []
            (BlockNode [FunctionCallNode ''f'' [NumberNode (PyInt 1)]])])
     = Inl (ArityMismatch ''f'' 2 1)"
    by (simp add: analyzer_eval)
  show "compile 30 ''function f(a, b) return a end function g() f(1) end'' = Some (AnalyzerRaised (ArityMismatch ''f'' 2 1))"
    unfolding compile_def l2 by (simp add: p2 a2)
qed

text \<open>
  Claim C7 (blocks). A block that is analyzed without an exception has no type and
  leaves the analyzer exactly as it found it: its statements were analyzed, in order,
  in a fresh table nested in the current one, and that table is dropped. So a name that
  no table of the chain declared before the block is undefined after it.
\<close>

theorem block_scope_restored:
  assumes "analyze_node (BlockNode statements) A = Inr (t, A')"
  shows "t = None \<and> A' = A
       \<and> (\<exists>A1. analyze_each statements
                  (A\<lparr>symbol_table := SymbolTable [] [] (Some (symbol_table A))\<rparr>) = Inr A1)
       \<and> (\<forall>x. \<not> list_ex (declared_in x) (scopes (symbol_table A)) \<longrightarrow>
              analyze_node (VariableNode x) A' = Inl (UndefinedVariable x))"
proof -
  from assms have 1: "t = None" "A' = A"
    and 2: "\<exists>A1. analyze_each statements
                  (A\<lparr>symbol_table := SymbolTable [] [] (Some (symbol_table A))\<rparr>) = Inr A1"
    unfolding block_restores by (auto split: sum.splits)
  have "analyze_node (VariableNode x) A = Inl (UndefinedVariable x)"
    if "\<not> list_ex (declared_in x) (scopes (symbol_table A))" for x
    using that by (simp add: get_variable_undefined_iff[symmetric] ebind_def)
  with 1 2 show ?thesis by simp
qed

text \<open>
  On the block of \<open>y = 1\<close>; and the program \<open>if 1 < 2 then local y = 1 end print(y)\<close>
  through the three stages.
\<close>

theorem block_scope_restored_witness:
  "analyze_node (BlockNode [AssignmentNode ''y'' (NumberNode (PyInt 1))]) new_SemanticAnalyzer
   = Inr (None, new_SemanticAnalyzer)
   \<and> analyze_node (VariableNode ''y'') new_SemanticAnalyzer = Inl (UndefinedVariable ''y'')
   \<and> compile 30 ''if 1 < 2 then local y = 1 end print(y)'' = Some (AnalyzerRaised (UndefinedVariable ''y''))"
proof (intro conjI)
  have b: "analyze_node (BlockNode [AssignmentNode ''y'' (NumberNode (PyInt 1))])
             new_SemanticAnalyzer = Inr (None, new_SemanticAnalyzer)"
    by (simp add: analyzer_eval)
  then show "analyze_node (BlockNode [AssignmentNode ''y'' (NumberNode (PyInt 1))])
             new_SemanticAnalyzer = Inr (None, new_SemanticAnalyzer)" .
  have n: "\<not> list_ex (declared_in ''y'') (scopes (symbol_table new_SemanticAnalyzer))"
    by (simp add: analyzer_eval)
  from block_scope_restored [OF b] n
  show "analyze_node (VariableNode ''y'') new_SemanticAnalyzer = Inl (UndefinedVariable ''y'')"
    by blast
  have l: "lexer_tokens ''if 1 < 2 then local y = 1 end print(y)'' = Inr
     [Token IF (PyStr ''if'') 1 1, Token NUMBER (PyInt 1) 1 4,
      Token LESS (PyStr ''<'') 1 6, Token NUMBER (PyInt 2) 1 8,
      Token THEN (PyStr ''then'') 1 10, Token LOCAL (PyStr ''local'') 1 15,
      Token IDENTIFIER (PyStr ''y'') 1 21, Token ASSIGN (PyStr ''='') 1 23,
      Token NUMBER (PyInt 1) 1 25, Token END (PyStr ''end'') 1 27,
      Token IDENTIFIER (PyStr ''print'') 1 31, Token LPAREN (PyStr ''('') 1 36,
      Token IDENTIFIER (PyStr ''y'') 1 37, Token RPAREN (PyStr '')'') 1 38,
      Token EOF PyNone 1 39]"
    by (simp add: lexer_eval)
  have p: "parse 30
     [Token IF (PyStr ''if'') 1 1, Token NUMBER (PyInt 1) 1 4,
      Token LESS (PyStr ''<'') 1 6, Token NUMBER (PyInt 2) 1 8,
      Token THEN (PyStr ''then'') 1 10, Token LOCAL (PyStr ''local'') 1 15,
      Token IDENTIFIER (PyStr ''y'') 1 21, Token ASSIGN (PyStr ''='') 1 23,
      Token NUMBER (PyInt 1) 1 25, Token END (PyStr ''end'') 1 27,
      Token IDENTIFIER (PyStr ''print'') 1 31, Token LPAREN (PyStr ''('') 1 36,
      Token IDENTIFIER (PyStr ''y'') 1 37, Token RPAREN (PyStr '')'') 1 38,
      Token EOF PyNone 1 39]
     = Some (Inr (BlockNode
         [IfNode (BinaryOpNode (NumberNode (PyInt 1)) (Token LESS (PyStr ''<'') 1 6)
                    (NumberNode (PyInt 2)))
            (BlockNode [AssignmentNode ''y'' (NumberNode (PyInt 1))]) None,
          FunctionCallNode ''print'' [VariableNode ''y'']]))"
    by (simp add: parser_eval)
  have a: "analyze (BlockNode
         [IfNode (BinaryOpNode (NumberNode (PyInt 1)) (Token LESS (PyStr ''<'') 1 6)
                    (NumberNode (PyInt 2)))
            (BlockNode [AssignmentNode ''y'' (NumberNode (PyInt 1))]) None,
          FunctionCallNode ''print'' [VariableNode ''y'']])
     = Inl (UndefinedVariable ''y'')"
    by (simp add: analyzer_eval)
  show "compile 30 ''if 1 < 2 then local y = 1 end print(y)'' = Some (AnalyzerRaised (UndefinedVariable ''y''))"
    unfolding compile_def l by (simp add: p a)
qed

text \<open>
  Claim C10 (a parameter named twice). A function declaration whose parameter list
  holds a name more than once is rejected, whatever its body and wherever it stands:
  declaring the parameters in the function's fresh table raises "already declared in
  this scope" for a name that the list repeats.
\<close>

theorem duplicate_parameter_rejected:
  assumes "\<not> distinct params"
  shows "\<exists>x \<in> set params. 1 < count_list params x
           \<and> analyze_node (FunctionNode name params body) A = Inl (AlreadyDeclared x)"
proof -
  from declare_params_duplicate[of params "SymbolTable [] [] (Some (symbol_table A))"] assms
  obtain x where "x \<in> set params" "1 < count_list params x"
    "declare_params params (SymbolTable [] [] (Some (symbol_table A))) = Inl (AlreadyDeclared x)"
    by auto
  then show ?thesis by (auto simp: ebind_def Let_def)
qed

text \<open>On \<open>function f(a, a) end\<close>, as a node and through the three stages.\<close>

theorem duplicate_parameter_rejected_witness:
  "analyze_node (FunctionNode ''f'' [''a'', ''a''] (BlockNode [])) new_SemanticAnalyzer
   = Inl (AlreadyDeclared ''a'')
   \<and> compile 30 ''function f(a, a) end'' = Some (AnalyzerRaised (AlreadyDeclared ''a''))"
proof (intro conjI)
  have d: "\<not> distinct [''a'', ''a'']" by simp
  from duplicate_parameter_rejected [OF d, of "''f''" "BlockNode []" new_SemanticAnalyzer]
  show "analyze_node (FunctionNode ''f'' [''a'', ''a''] (BlockNode [])) new_SemanticAnalyzer
          = Inl (AlreadyDeclared ''a'')"
    by auto
  have l: "lexer_tokens ''function f(a, a) end'' = Inr
     [Token FUNCTION (PyStr ''function'') 1 1, Token IDENTIFIER (PyStr ''f'') 1 10,
      Token LPAREN (PyStr ''('') 1 11, Token IDENTIFIER (PyStr ''a'') 1 12,
      Token COMMA (PyStr '','') 1 13, Token IDENTIFIER (PyStr ''a'') 1 15,
      Token RPAREN (PyStr '')'') 1 16, Token END (PyStr ''end'') 1 18,
      Token EOF PyNone 1 21]"
    by (simp add: lexer_eval)
  have p: "parse 30
     [Token FUNCTION (PyStr ''function'') 1 1, Token IDENTIFIER (PyStr ''f'') 1 10,
      Token LPAREN (PyStr ''('') 1 11, Token IDENTIFIER (PyStr ''a'') 1 12,
      Token COMMA (PyStr '','') 1 13, Token IDENTIFIER (PyStr ''a'') 1 15,
      Token RPAREN (PyStr '')'') 1 16, Token END (PyStr ''end'') 1 18,
      Token EOF PyNone 1 21]
     = Some (Inr (BlockNode [FunctionNode ''f'' [''a'', ''a''] (BlockNode [])]))"
    by (simp add: parser_eval)
  have a: "analyze (BlockNode [FunctionNode ''f'' [''a'', ''a''] (BlockNode [])])
     = Inl (AlreadyDeclared ''a'')"
    by (simp add: analyzer_eval)
  show "compile 30 ''function f(a, a) end'' = Some (AnalyzerRaised (AlreadyDeclared ''a''))"
    unfolding compile_def l by (simp add: p a)
qed


end
